theory Spec2Isabelle
  imports Main "HOL-Library.Sublist"
begin

section \<open>Strings\<close>

text \<open>
  The server (\<^verbatim>\<open>server.ts\<close>) works on JavaScript strings. A string is modelled as a
  \<^typ>\<open>string\<close> (a list of characters), one character per code unit, and a list of
  lines as a \<^typ>\<open>string list\<close>. A \<^typ>\<open>char\<close> has eight bits, so the strings of the
  model are those whose code units lie in the range U+0000..U+00FF (ASCII and Latin-1);
  the source itself assumes ASCII calendars (its folder is commented "safe for ASCII
  ICS"). Within this range the operations below follow JavaScript.
\<close>

definition CR :: char where
  "CR = CHR 0x0D"

definition LF :: char where
  "LF = CHR 0x0A"

definition TAB :: char where
  "TAB = CHR 0x09"

text \<open>
  A regular expression with the flag \<open>i\<close> compares characters by their capital, and
  never lets a character outside ASCII match an ASCII character: for the patterns of the
  source, which are ASCII, a small letter \<open>a\<close>..\<open>z\<close> counts as its capital and every
  other character as itself.
\<close>

definition upperChar :: "char \<Rightarrow> char" where
  "upperChar c =
     (case map_of (zip ''abcdefghijklmnopqrstuvwxyz'' ''ABCDEFGHIJKLMNOPQRSTUVWXYZ'') c of
        Some u \<Rightarrow> u
      | None \<Rightarrow> c)"

definition ciUpper :: "string \<Rightarrow> string" where
  "ciUpper s = map upperChar s"

text \<open>
  \<open>s.toUpperCase()\<close> maps, beyond \<open>a\<close>..\<open>z\<close>, the small letters U+00E0..U+00FE
  (without the division sign U+00F7) to U+00C0..U+00DE, and the sharp s U+00DF to the two
  letters \<open>SS\<close>. The capitals of U+00B5 and U+00FF lie outside the range of the model;
  these two characters stand for their capitals, which is faithful for this program: it
  only compares the result of \<open>toUpperCase\<close> with ASCII texts.
\<close>

definition upperString :: "char \<Rightarrow> string" where
  "upperString c =
     (if c = CHR 0xDF then ''SS''
      else (case map_of (zip
              [CHR 0xE0, CHR 0xE1, CHR 0xE2, CHR 0xE3, CHR 0xE4, CHR 0xE5, CHR 0xE6, CHR 0xE7,
               CHR 0xE8, CHR 0xE9, CHR 0xEA, CHR 0xEB, CHR 0xEC, CHR 0xED, CHR 0xEE, CHR 0xEF,
               CHR 0xF0, CHR 0xF1, CHR 0xF2, CHR 0xF3, CHR 0xF4, CHR 0xF5, CHR 0xF6,
               CHR 0xF8, CHR 0xF9, CHR 0xFA, CHR 0xFB, CHR 0xFC, CHR 0xFD, CHR 0xFE]
              [CHR 0xC0, CHR 0xC1, CHR 0xC2, CHR 0xC3, CHR 0xC4, CHR 0xC5, CHR 0xC6, CHR 0xC7,
               CHR 0xC8, CHR 0xC9, CHR 0xCA, CHR 0xCB, CHR 0xCC, CHR 0xCD, CHR 0xCE, CHR 0xCF,
               CHR 0xD0, CHR 0xD1, CHR 0xD2, CHR 0xD3, CHR 0xD4, CHR 0xD5, CHR 0xD6,
               CHR 0xD8, CHR 0xD9, CHR 0xDA, CHR 0xDB, CHR 0xDC, CHR 0xDD, CHR 0xDE]) c of
              Some u \<Rightarrow> [u]
            | None \<Rightarrow> [upperChar c]))"

definition toUpperCase :: "string \<Rightarrow> string" where
  "toUpperCase s = concat (map upperString s)"

definition isDigit :: "char \<Rightarrow> bool" where
  "isDigit c = (let n = (of_char c :: nat) in 48 \<le> n \<and> n \<le> 57)"

text \<open>The class \<open>\w\<close> of a regular expression: letters, digits and the underscore.\<close>

definition isWordChar :: "char \<Rightarrow> bool" where
  "isWordChar c =
     (let n = (of_char c :: nat) in
        (48 \<le> n \<and> n \<le> 57) \<or> (65 \<le> n \<and> n \<le> 90) \<or> (97 \<le> n \<and> n \<le> 122) \<or> n = 95)"

text \<open>
  The class \<open>\s\<close>, which is also what \<open>trim\<close> and \<open>trimStart\<close> remove: tab, line
  feed, vertical tab, form feed, carriage return, space, and the no-break space U+00A0.
\<close>

definition isSpace :: "char \<Rightarrow> bool" where
  "isSpace c = (let n = (of_char c :: nat) in (9 \<le> n \<and> n \<le> 13) \<or> n = 32 \<or> n = 160)"

definition startsWith :: "string \<Rightarrow> string \<Rightarrow> bool" where
  "startsWith s p = prefix p s"

definition endsWith :: "string \<Rightarrow> string \<Rightarrow> bool" where
  "endsWith s p = suffix p s"

text \<open>\<open>s.includes(p)\<close>: \<open>p\<close> occurs in \<open>s\<close> as a contiguous substring.\<close>

fun includes_str :: "string \<Rightarrow> string \<Rightarrow> bool" where
  "includes_str [] p = (p = [])"
| "includes_str (c # cs) p = (prefix p (c # cs) \<or> includes_str cs p)"

text \<open>\<open>s.split(d)\<close> for a one-character separator: never empty, \<open>"".split(d) = [""]\<close>.\<close>

fun splitOn :: "char \<Rightarrow> string \<Rightarrow> string list" where
  "splitOn d [] = [[]]"
| "splitOn d (c # cs) =
     (if c = d then [] # splitOn d cs
      else (case splitOn d cs of [] \<Rightarrow> [[c]] | r # rs \<Rightarrow> (c # r) # rs))"

text \<open>\<open>parts.join(sep)\<close>.\<close>

fun joinWith :: "string \<Rightarrow> string list \<Rightarrow> string" where
  "joinWith sep [] = []"
| "joinWith sep [x] = x"
| "joinWith sep (x # y # ys) = x @ sep @ joinWith sep (y # ys)"

text \<open>\<open>xs.findIndex(P)\<close>: the first index whose element satisfies \<open>P\<close>; \<open>None\<close> is \<open>-1\<close>.\<close>

fun findIndex :: "('a \<Rightarrow> bool) \<Rightarrow> 'a list \<Rightarrow> nat option" where
  "findIndex P [] = None"
| "findIndex P (x # xs) =
     (if P x then Some 0 else (case findIndex P xs of None \<Rightarrow> None | Some i \<Rightarrow> Some (Suc i)))"

section \<open>The date-time library\<close>

text \<open>
  The server parses, converts and prints date-times with Luxon, a dependency that is not
  part of the repository. This section models the three calls the server makes:
  \<open>DateTime.fromFormat(text, fmt, {zone})\<close>, \<open>setZone(zone)\<close> and \<open>toFormat(fmt)\<close>,
  for the two formats \<open>yyyyLLdd'T'HHmmss\<close> and \<open>yyyyLLdd'T'HHmm\<close>. Instants are
  seconds since the epoch (the formats carry no fraction). What depends on the time-zone
  data base and on the clock is a parameter: \<open>zoneOffset\<close> gives, for a zone name the
  platform knows, the zone's offset from UTC in seconds at a UTC instant, and
  \<open>nowTs\<close> is the instant at which the call is made (the library seeds its search for
  the offset of a wall-clock time with the zone's current offset).
\<close>

record luxon_env =
  zoneOffset :: "string \<Rightarrow> (int \<Rightarrow> int) option"
  nowTs :: int

record dt_obj =
  year :: int
  month :: int
  day :: int
  hour :: int
  minute :: int
  second :: int

definition digitVal :: "char \<Rightarrow> int" where
  "digitVal c = int (of_char c) - 48"

definition digitsToInt :: "string \<Rightarrow> int" where
  "digitsToInt s = foldl (\<lambda>acc c. 10 * acc + digitVal c) 0 s"

text \<open>
  The format is compiled to an anchored, case-insensitive regular expression: four digits,
  two digits, two digits, the literal \<open>T\<close>, then two digits for each time field.
\<close>

definition matchFormat :: "bool \<Rightarrow> string \<Rightarrow> dt_obj option" where
  "matchFormat hasSeconds s =
     (if length s = (if hasSeconds then 15 else 13)
         \<and> list_all isDigit (take 8 s)
         \<and> upperChar (s ! 8) = CHR ''T''
         \<and> list_all isDigit (drop 9 s)
      then Some \<lparr> year = digitsToInt (take 4 s),
                  month = digitsToInt (take 2 (drop 4 s)),
                  day = digitsToInt (take 2 (drop 6 s)),
                  hour = digitsToInt (take 2 (drop 9 s)),
                  minute = digitsToInt (take 2 (drop 11 s)),
                  second = (if hasSeconds then digitsToInt (take 2 (drop 13 s)) else 0) \<rparr>
      else None)"

definition isLeapYear :: "int \<Rightarrow> bool" where
  "isLeapYear y = (y mod 4 = 0 \<and> (y mod 100 \<noteq> 0 \<or> y mod 400 = 0))"

definition daysInMonth :: "int \<Rightarrow> int \<Rightarrow> int" where
  "daysInMonth y m =
     (if m = 2 then (if isLeapYear y then 29 else 28)
      else if m = 4 \<or> m = 6 \<or> m = 9 \<or> m = 11 then 30 else 31)"

text \<open>
  A parsed object is rejected unless it is a date of the calendar and a time of the day;
  the hour 24 is accepted with zero minutes and seconds.
\<close>

definition validObj :: "dt_obj \<Rightarrow> bool" where
  "validObj d =
     (1 \<le> month d \<and> month d \<le> 12
      \<and> 1 \<le> day d \<and> day d \<le> daysInMonth (year d) (month d)
      \<and> ((0 \<le> hour d \<and> hour d \<le> 23) \<or> (hour d = 24 \<and> minute d = 0 \<and> second d = 0))
      \<and> 0 \<le> minute d \<and> minute d \<le> 59
      \<and> 0 \<le> second d \<and> second d \<le> 59)"

text \<open>Days since the epoch of a calendar date, and back (the proleptic Gregorian calendar).\<close>

definition daysFromCivil :: "int \<Rightarrow> int \<Rightarrow> int \<Rightarrow> int" where
  "daysFromCivil y m d =
     (let y' = (if m \<le> 2 then y - 1 else y);
          era = y' div 400;
          yoe = y' - era * 400;
          doy = (153 * (if m > 2 then m - 3 else m + 9) + 2) div 5 + d - 1;
          doe = yoe * 365 + yoe div 4 - yoe div 100 + doy
      in era * 146097 + doe - 719468)"

definition civilFromDays :: "int \<Rightarrow> int \<times> int \<times> int" where
  "civilFromDays z0 =
     (let z = z0 + 719468;
          era = z div 146097;
          doe = z - era * 146097;
          yoe = (doe - doe div 1460 + doe div 36524 - doe div 146096) div 365;
          doy = doe - (365 * yoe + yoe div 4 - yoe div 100);
          mp = (5 * doy + 2) div 153;
          d = doy - (153 * mp + 2) div 5 + 1;
          m = (if mp < 10 then mp + 3 else mp - 9);
          y = yoe + era * 400
      in ((if m \<le> 2 then y + 1 else y), m, d))"

text \<open>
  The instant of a date and a time read as UTC (\<open>Date.UTC\<close>): the hour 24 rolls over
  to the next day. For the years 0 to 99, which \<open>Date.UTC\<close> takes for 1900 to 1999, the
  library sets year, month and day again (\<open>setUTCFullYear\<close>), which keeps only the time
  within the day: there the hour 24 is the hour 0 of the same day.
\<close>

definition objToLocalTS :: "dt_obj \<Rightarrow> int" where
  "objToLocalTS d =
     (let secs = hour d * 3600 + minute d * 60 + second d
      in daysFromCivil (year d) (month d) (day d) * 86400
           + (if 0 \<le> year d \<and> year d < 100 then secs mod 86400 else secs))"

definition tsToObj :: "int \<Rightarrow> int \<Rightarrow> dt_obj" where
  "tsToObj ts offset =
     (let t = ts + offset;
          days = t div 86400;
          secs = t mod 86400
      in (case civilFromDays days of (y, m, d) \<Rightarrow>
            \<lparr> year = y, month = m, day = d,
              hour = secs div 3600, minute = (secs mod 3600) div 60, second = secs mod 60 \<rparr>))"

text \<open>
  A zone name resolves to its offset function, or to nothing when the platform does not
  know it. \<open>utc\<close> and \<open>gmt\<close> (in any case) are the fixed zone of offset zero.
\<close>

definition normalizeZone :: "luxon_env \<Rightarrow> string \<Rightarrow> (int \<Rightarrow> int) option" where
  "normalizeZone env name =
     (if ciUpper name = ''UTC'' \<or> ciUpper name = ''GMT'' then Some (\<lambda>ts. 0)
      else zoneOffset env name)"

text \<open>The instant of a wall-clock time in a zone, from a first guess \<open>o1\<close> of the offset.\<close>

definition fixOffset :: "int \<Rightarrow> int \<Rightarrow> (int \<Rightarrow> int) \<Rightarrow> int" where
  "fixOffset localTS o1 tz =
     (let utcGuess = localTS - o1;
          o2 = tz utcGuess
      in if o1 = o2 then utcGuess
         else (let utcGuess2 = utcGuess - (o2 - o1);
                   o3 = tz utcGuess2
               in if o2 = o3 then utcGuess2 else localTS - min o2 o3))"

text \<open>
  \<open>DateTime.fromFormat(text, fmt, {zone})\<close>: the instant, or \<open>None\<close> for an invalid
  result (\<open>isValid\<close> is false).
\<close>

definition fromFormat :: "luxon_env \<Rightarrow> string \<Rightarrow> bool \<Rightarrow> string \<Rightarrow> int option" where
  "fromFormat env text hasSeconds zone =
     (case matchFormat hasSeconds text of
        None \<Rightarrow> None
      | Some d \<Rightarrow>
          (case normalizeZone env zone of
             None \<Rightarrow> None
           | Some tz \<Rightarrow>
               if validObj d then Some (fixOffset (objToLocalTS d) (tz (nowTs env)) tz)
               else None))"

text \<open>Decimal digits of a natural number, and \<open>padStart\<close> for a field of a date.\<close>

definition digitChar :: "nat \<Rightarrow> char" where
  "digitChar n = ''0123456789'' ! n"

fun digitsOf :: "nat \<Rightarrow> string" where
  "digitsOf n = (if n < 10 then [digitChar n] else digitsOf (n div 10) @ [digitChar (n mod 10)])"

definition padStart :: "int \<Rightarrow> nat \<Rightarrow> string" where
  "padStart i n =
     (if i < 0 then CHR ''-'' # replicate (n - length (digitsOf (nat (- i)))) CHR ''0'' @ digitsOf (nat (- i))
      else replicate (n - length (digitsOf (nat i))) CHR ''0'' @ digitsOf (nat i))"

definition formatObj :: "bool \<Rightarrow> dt_obj \<Rightarrow> string" where
  "formatObj hasSeconds d =
     padStart (year d) 4 @ padStart (month d) 2 @ padStart (day d) 2 @ ''T''
       @ padStart (hour d) 2 @ padStart (minute d) 2
       @ (if hasSeconds then padStart (second d) 2 else [])"

text \<open>
  \<open>dt.setZone(zone).toFormat(fmt)\<close> for a valid \<open>dt\<close>: the wall-clock reading of the
  instant in the zone; an unknown zone gives an invalid date-time, which prints as
  \<open>Invalid DateTime\<close>.
\<close>

definition setZoneToFormat :: "luxon_env \<Rightarrow> int \<Rightarrow> string \<Rightarrow> bool \<Rightarrow> string" where
  "setZoneToFormat env ts zone hasSeconds =
     (case normalizeZone env zone of
        None \<Rightarrow> ''Invalid DateTime''
      | Some tz \<Rightarrow> formatObj hasSeconds (tsToObj ts (tz ts)))"

declare digitsOf.simps [simp del]

section \<open>The server's helpers\<close>

text \<open>
  \<open>isLikelyIana\<close> tests \<open>/\w+\/[-_A-Za-z0-9+]+/\<close> anywhere in the name: a word
  character, a slash, and a character of the class after it.
\<close>

definition isLocalityChar :: "char \<Rightarrow> bool" where
  "isLocalityChar c = (isWordChar c \<or> c = CHR ''-'' \<or> c = CHR ''+'')"

fun isLikelyIana :: "string \<Rightarrow> bool" where
  "isLikelyIana (a # b # c # cs) =
     ((isWordChar a \<and> b = CHR ''/'' \<and> isLocalityChar c) \<or> isLikelyIana (b # c # cs))"
| "isLikelyIana cs = False"

definition windowsMapping :: "(string \<times> string) list" where
  "windowsMapping =
     [(''W. Europe Standard Time'', ''Europe/Zurich''),
      (''Romance Standard Time'', ''Europe/Zurich''),
      (''Central Europe Standard Time'', ''Europe/Zurich''),
      (''Central European Standard Time'', ''Europe/Zurich''),
      (''GMT Standard Time'', ''Europe/London''),
      (''E. Europe Standard Time'', ''Europe/Bucharest''),
      (''Russian Standard Time'', ''Europe/Moscow''),
      (''Eastern Standard Time'', ''America/New_York''),
      (''Central Standard Time'', ''America/Chicago''),
      (''Mountain Standard Time'', ''America/Denver''),
      (''Pacific Standard Time'', ''America/Los_Angeles'')]"

text \<open>
  The table is a plain object, so \<open>mapping[windowsTz]\<close> also finds the properties that
  every object inherits; their values are functions or objects, not strings, and
  \<open>mapping[windowsTz] || windowsTz\<close> returns them. \<open>None\<close> stands for such a value.
\<close>

definition inheritedKeys :: "string list" where
  "inheritedKeys =
     [''constructor'', ''__defineGetter__'', ''__defineSetter__'', ''hasOwnProperty'',
      ''__lookupGetter__'', ''__lookupSetter__'', ''isPrototypeOf'', ''propertyIsEnumerable'',
      ''toString'', ''valueOf'', ''__proto__'', ''toLocaleString'']"

definition mapWindowsToIana :: "string \<Rightarrow> string option" where
  "mapWindowsToIana windowsTz =
     (case map_of windowsMapping windowsTz of
        Some iana \<Rightarrow> Some iana
      | None \<Rightarrow> if windowsTz \<in> set inheritedKeys then None else Some windowsTz)"

subsection \<open>Unfolding and folding\<close>

text \<open>\<open>raw.replace(/\r\n/g, "\n")\<close>: every CR LF pair, left to right, becomes LF.\<close>

fun replaceCRLF :: "string \<Rightarrow> string" where
  "replaceCRLF (c # d # cs) =
     (if c = CR \<and> d = LF then LF # replaceCRLF cs else c # replaceCRLF (d # cs))"
| "replaceCRLF cs = cs"

definition trimStart :: "string \<Rightarrow> string" where
  "trimStart s = dropWhile isSpace s"

text \<open>
  One pass of the loop of \<open>unfoldICSLines\<close>: a line that starts with a space or a tab
  continues the last line pushed (\<open>pop\<close>, then \<open>push\<close>); with nothing to pop it is
  pushed without its leading white space.
\<close>

definition unfoldStep :: "string list \<Rightarrow> string \<Rightarrow> string list" where
  "unfoldStep unfolded line =
     (if startsWith line '' '' \<or> startsWith line [TAB] then
        (if unfolded = [] then [trimStart line]
         else butlast unfolded @ [last unfolded @ drop 1 line])
      else unfolded @ [line])"

definition unfoldICSLines :: "string \<Rightarrow> string list" where
  "unfoldICSLines raw = foldl unfoldStep [] (splitOn LF (replaceCRLF raw))"

text \<open>The \<open>while (idx < line.length)\<close> loop of \<open>foldICSLines\<close>, from index \<open>idx\<close>.\<close>

function foldChunks :: "string \<Rightarrow> nat \<Rightarrow> string list" where
  "foldChunks line idx =
     (if idx < length line then
        (let chunk = take 75 (drop idx line)
         in (if idx = 0 then chunk else CHR '' '' # chunk) # foldChunks line (idx + 75))
      else [])"
  by pat_completeness auto
termination
  by (relation "measure (\<lambda>(line, idx). length line - idx)") auto

declare foldChunks.simps [simp del]

definition foldLine :: "string \<Rightarrow> string list" where
  "foldLine line = (if length line \<le> 75 then [line] else foldChunks line 0)"

definition foldICSLines :: "string list \<Rightarrow> string" where
  "foldICSLines lines = joinWith [CR, LF] (concat (map foldLine lines))"

definition vtimezoneBlock :: "string \<Rightarrow> string list" where
  "vtimezoneBlock tzid =
     [''BEGIN:VTIMEZONE'',
      ''TZID:'' @ tzid,
      ''X-LIC-LOCATION:'' @ tzid,
      ''BEGIN:DAYLIGHT'',
      ''TZOFFSETFROM:+0100'',
      ''TZOFFSETTO:+0200'',
      ''TZNAME:GMT+2'',
      ''DTSTART:19700329T020000'',
      ''RRULE:FREQ=YEARLY;BYMONTH=3;BYDAY=-1SU'',
      ''END:DAYLIGHT'',
      ''BEGIN:STANDARD'',
      ''TZOFFSETFROM:+0200'',
      ''TZOFFSETTO:+0100'',
      ''TZNAME:GMT+1'',
      ''DTSTART:19701025T030000'',
      ''RRULE:FREQ=YEARLY;BYMONTH=10;BYDAY=-1SU'',
      ''END:STANDARD'',
      ''END:VTIMEZONE'']"

subsection \<open>Rewriting one date-time line\<close>

record TransformOptions =
  targetTz :: string
  overrideExistingTz :: bool

text \<open>The alternation \<open>(DTSTART|DTEND|RECURRENCE-ID|EXDATE)\<close> of both patterns.\<close>

definition dtProps :: "string list" where
  "dtProps = [''DTSTART'', ''DTEND'', ''RECURRENCE-ID'', ''EXDATE'']"

text \<open>A pattern of capital letters matches at the start of \<open>s\<close>, ignoring case.\<close>

definition ciPrefix :: "string \<Rightarrow> string \<Rightarrow> bool" where
  "ciPrefix p s = prefix p (ciUpper s)"

definition notColon :: "char \<Rightarrow> bool" where
  "notColon c = (c \<noteq> CHR '':'')"

text \<open>
  \<open>isAllDay\<close> tests \<open>/^(DTSTART|DTEND|RECURRENCE-ID|EXDATE);[^:]*VALUE=DATE:/i\<close>:
  after the name and a semicolon, the characters up to the first colon end with
  \<open>VALUE=DATE\<close>.
\<close>

definition allDayAfter :: "string \<Rightarrow> bool" where
  "allDayAfter rest =
     (case rest of
        [] \<Rightarrow> False
      | c # r \<Rightarrow>
          c = CHR '';''
          \<and> (let ps = takeWhile notColon r
             in length ps < length r \<and> suffix ''VALUE=DATE'' (ciUpper ps)))"

definition isAllDay :: "string \<Rightarrow> bool" where
  "isAllDay line =
     list_ex (\<lambda>p. ciPrefix p line \<and> allDayAfter (drop (length p) line)) dtProps"

text \<open>
  \<open>extractExistingTzid\<close> searches \<open>/TZID=([^;:]+)/i\<close> in the parameters (\<open>None\<close> for
  \<open>undefined\<close>): the leftmost \<open>TZID=\<close> that is followed by a character other than
  \<open>;\<close> and \<open>:\<close>, and the longest run of such characters after it.
\<close>

definition tzidValueChar :: "char \<Rightarrow> bool" where
  "tzidValueChar c = (c \<noteq> CHR '';'' \<and> c \<noteq> CHR '':'')"

fun searchTzid :: "string \<Rightarrow> string option" where
  "searchTzid [] = None"
| "searchTzid (c # cs) =
     (let v = takeWhile tzidValueChar (drop 5 (c # cs))
      in if ciPrefix ''TZID='' (c # cs) \<and> v \<noteq> [] then Some v else searchTzid cs)"

definition extractExistingTzid :: "string option \<Rightarrow> string option" where
  "extractExistingTzid params = (case params of None \<Rightarrow> None | Some p \<Rightarrow> searchTzid p)"

text \<open>
  The match of
  \<open>/^(DTSTART|DTEND|RECURRENCE-ID|EXDATE)(;[^:]+)?:([^\r\n]+)$/i\<close> after the
  name: the optional group is a semicolon and the characters up to the first colon (at
  least one), and the value runs to the end of the line without CR or LF.
\<close>

definition isValueChar :: "char \<Rightarrow> bool" where
  "isValueChar c = (c \<noteq> CR \<and> c \<noteq> LF)"

definition matchRest :: "string \<Rightarrow> (string option \<times> string) option" where
  "matchRest rest =
     (case rest of
        [] \<Rightarrow> None
      | c # r \<Rightarrow>
          if c = CHR '';'' then
            (let ps = takeWhile notColon r; v = drop (Suc (length ps)) r
             in if ps \<noteq> [] \<and> length ps < length r \<and> v \<noteq> [] \<and> list_all isValueChar v
                then Some (Some (c # ps), v) else None)
          else if c = CHR '':'' then
            (if r \<noteq> [] \<and> list_all isValueChar r then Some (None, r) else None)
          else None)"

text \<open>The three groups of the match: the name as written, the parameters, the value.\<close>

fun matchLineWith :: "string list \<Rightarrow> string \<Rightarrow> (string \<times> string option \<times> string) option" where
  "matchLineWith [] line = None"
| "matchLineWith (p # ps) line =
     (case (if ciPrefix p line then matchRest (drop (length p) line) else None) of
        Some (params, v) \<Rightarrow> Some (take (length p) line, params, v)
      | None \<Rightarrow> matchLineWith ps line)"

definition matchDateTimeLine :: "string \<Rightarrow> (string \<times> string option \<times> string) option" where
  "matchDateTimeLine line = matchLineWith dtProps line"

text \<open>\<open>/T\d{6}$/.test(dtBasic)\<close>.\<close>

definition hasSecondsOf :: "string \<Rightarrow> bool" where
  "hasSecondsOf dtBasic =
     (let n = length dtBasic
      in 7 \<le> n \<and> dtBasic ! (n - 7) = CHR ''T'' \<and> list_all isDigit (drop (n - 6) dtBasic))"

definition isTzidParam :: "string \<Rightarrow> bool" where
  "isTzidParam kv = startsWith (toUpperCase kv) ''TZID=''"

text \<open>The parameters without the leading semicolon, split at the semicolons.\<close>

definition paramParts :: "string option \<Rightarrow> string list" where
  "paramParts p =
     (let base = (case p of
                    None \<Rightarrow> []
                  | Some s \<Rightarrow> (if startsWith s '';'' then drop 1 s else s))
      in if base \<noteq> [] then splitOn (CHR '';'') base else [])"

definition buildParams :: "string option \<Rightarrow> string \<Rightarrow> string" where
  "buildParams p inject =
     '';'' @ joinWith '';'' (inject # filter (\<lambda>kv. \<not> isTzidParam kv) (paramParts p))"

definition transformDateTimeLine :: "luxon_env \<Rightarrow> string \<Rightarrow> TransformOptions \<Rightarrow> string" where
  "transformDateTimeLine env line opts =
     (case matchDateTimeLine line of
        None \<Rightarrow> line
      | Some (prop, params, val) \<Rightarrow>
          if isAllDay line then line
          else
            (let hasZ = endsWith val ''Z'';
                 existingTz = extractExistingTzid params;
                 dtBasic = remove1 (CHR ''Z'') val;
                 hasSeconds = hasSecondsOf dtBasic;
                 newParams = buildParams params (''TZID='' @ targetTz opts)
             in if hasZ then
                  (case fromFormat env dtBasic hasSeconds ''utc'' of
                     None \<Rightarrow> line
                   | Some dtUtc \<Rightarrow>
                       prop @ newParams @ '':''
                         @ setZoneToFormat env dtUtc (targetTz opts) hasSeconds)
                else
                  (case existingTz of
                     Some tzid \<Rightarrow>
                       if \<not> overrideExistingTz opts then line
                       else
                         (let mappedTz = mapWindowsToIana tzid;
                              fromZone = (case mappedTz of
                                            Some z \<Rightarrow> if isLikelyIana z then z else ''utc''
                                          | None \<Rightarrow> ''utc'')
                          in case fromFormat env dtBasic hasSeconds fromZone of
                               None \<Rightarrow> line
                             | Some dtLocal \<Rightarrow>
                                 prop @ newParams @ '':''
                                   @ setZoneToFormat env dtLocal (targetTz opts) hasSeconds)
                   | None \<Rightarrow> prop @ newParams @ '':'' @ dtBasic)))"

section \<open>The document pipeline\<close>

subsection \<open>The rewriting pass\<close>

definition isDateTimeName :: "string \<Rightarrow> bool" where
  "isDateTimeName upper =
     (startsWith upper ''DTSTART'' \<or> startsWith upper ''DTEND''
      \<or> startsWith upper ''RECURRENCE-ID'' \<or> startsWith upper ''EXDATE'')"

text \<open>
  The callback of \<open>lines.map\<close> in \<open>transformIcs\<close>, with the flag \<open>insideVTimezone\<close>
  that it reads and writes passed along: the result is the list \<open>transformed\<close>.
\<close>

fun transformLines :: "luxon_env \<Rightarrow> TransformOptions \<Rightarrow> bool \<Rightarrow> string list \<Rightarrow> string list" where
  "transformLines env opts insideVTimezone [] = []"
| "transformLines env opts insideVTimezone (line # rest) =
     (let upper = toUpperCase line
      in if upper = ''BEGIN:VTIMEZONE'' then line # transformLines env opts True rest
         else if upper = ''END:VTIMEZONE'' then line # transformLines env opts False rest
         else if insideVTimezone then line # transformLines env opts insideVTimezone rest
         else if isDateTimeName upper then
           transformDateTimeLine env line opts # transformLines env opts insideVTimezone rest
         else line # transformLines env opts insideVTimezone rest)"

text \<open>The value of the flag after the callback has seen the lines \<open>ls\<close>.\<close>

fun insideVTimezoneAfter :: "bool \<Rightarrow> string list \<Rightarrow> bool" where
  "insideVTimezoneAfter inside [] = inside"
| "insideVTimezoneAfter inside (line # rest) =
     (let upper = toUpperCase line
      in if upper = ''BEGIN:VTIMEZONE'' then insideVTimezoneAfter True rest
         else if upper = ''END:VTIMEZONE'' then insideVTimezoneAfter False rest
         else insideVTimezoneAfter inside rest)"

subsection \<open>Integrating the timezone definition\<close>

definition declaresTz :: "string \<Rightarrow> string \<Rightarrow> bool" where
  "declaresTz tz l = (startsWith (toUpperCase l) ''TZID:'' \<and> includes_str l tz)"

definition isVtzBegin :: "string \<Rightarrow> bool" where
  "isVtzBegin l = startsWith (toUpperCase l) ''BEGIN:VTIMEZONE''"

definition isVtzEnd :: "string \<Rightarrow> bool" where
  "isVtzEnd l = startsWith (toUpperCase l) ''END:VTIMEZONE''"

definition isVeventBegin :: "string \<Rightarrow> bool" where
  "isVeventBegin l = startsWith (toUpperCase l) ''BEGIN:VEVENT''"

text \<open>\<open>xs.splice(start, count, ...items)\<close>, for \<open>start\<close> within the list.\<close>

definition splice :: "'a list \<Rightarrow> nat \<Rightarrow> nat \<Rightarrow> 'a list \<Rightarrow> 'a list" where
  "splice xs start count items = take start xs @ items @ drop (start + count) xs"

text \<open>
  \<open>findIndex((l, idx) => idx > start && P l)\<close>: the first index after \<open>start\<close>
  whose element satisfies \<open>P\<close>.
\<close>

definition findIndexAfter :: "('a \<Rightarrow> bool) \<Rightarrow> nat \<Rightarrow> 'a list \<Rightarrow> nat option" where
  "findIndexAfter P start xs =
     (case findIndex P (drop (Suc start) xs) of None \<Rightarrow> None | Some i \<Rightarrow> Some (Suc start + i))"

text \<open>
  The block of \<open>transformIcs\<close> under \<open>if (isLikelyIana(targetTz))\<close>, on the list
  \<open>transformed\<close>.
\<close>

definition integrateVtimezone :: "string \<Rightarrow> string list \<Rightarrow> string list" where
  "integrateVtimezone tz transformed =
     (if isLikelyIana tz then
        (if list_ex (declaresTz tz) transformed then transformed
         else
           (case findIndex isVtzBegin transformed of
              Some vtzStartIdx \<Rightarrow>
                (case findIndexAfter isVtzEnd vtzStartIdx transformed of
                   Some vtzEndIdx \<Rightarrow>
                     splice transformed vtzStartIdx (vtzEndIdx - vtzStartIdx + 1) (vtimezoneBlock tz)
                 | None \<Rightarrow> transformed)
            | None \<Rightarrow>
                (case findIndex isVeventBegin transformed of
                   Some idx \<Rightarrow> splice transformed idx 0 (vtimezoneBlock tz)
                 | None \<Rightarrow> transformed @ vtimezoneBlock tz)))
      else transformed)"

definition updateProdid :: "string list \<Rightarrow> string list" where
  "updateProdid transformed =
     (case findIndex (\<lambda>l. startsWith (toUpperCase l) ''PRODID:'') transformed of
        Some prodidIdx \<Rightarrow>
          transformed[prodidIdx := ''PRODID:-//Google Inc//Google Calendar 70.9054//EN'']
      | None \<Rightarrow> transformed)"

subsection \<open>Event blocks\<close>

definition fieldOrder :: "string list" where
  "fieldOrder =
     [''UID'', ''DTSTAMP'', ''DTSTART'', ''DTEND'', ''DURATION'', ''RRULE'', ''RDATE'',
      ''EXDATE'', ''EXRULE'', ''RECURRENCE-ID'', ''SUMMARY'', ''DESCRIPTION'', ''LOCATION'',
      ''CLASS'', ''PRIORITY'', ''TRANSP'', ''STATUS'', ''SEQUENCE'', ''ORGANIZER'',
      ''ATTENDEE'', ''CREATED'', ''LAST-MODIFIED'', ''URL'']"

text \<open>
  \<open>getFieldName\<close>: the text before the first colon, cut at its first semicolon, in capital
  letters; the empty name for a line without a colon.
\<close>

definition getFieldName :: "string \<Rightarrow> string" where
  "getFieldName line =
     (if CHR '':'' \<in> set line then
        toUpperCase (takeWhile (\<lambda>c. c \<noteq> CHR '';'') (takeWhile notColon line))
      else [])"

text \<open>
  The two replacements of \<open>fixDescription\<close>. \<open>/\\\s*$/\<close> matches a backslash that only
  white space follows, which is the last character before the trailing white space;
  \<open>/\n\s*$/\<close> matches from the first line feed of the trailing white space.
\<close>

definition trailingSpace :: "string \<Rightarrow> string" where
  "trailingSpace s = rev (takeWhile isSpace (rev s))"

definition withoutTrailingSpace :: "string \<Rightarrow> string" where
  "withoutTrailingSpace s = rev (dropWhile isSpace (rev s))"

definition stripTrailingBackslash :: "string \<Rightarrow> string" where
  "stripTrailingBackslash s =
     (let body = withoutTrailingSpace s
      in if body \<noteq> [] \<and> last body = CHR 0x5C then butlast body else s)"

definition stripTrailingNewline :: "string \<Rightarrow> string" where
  "stripTrailingNewline s =
     (let w = trailingSpace s
      in if LF \<in> set w then withoutTrailingSpace s @ takeWhile (\<lambda>c. c \<noteq> LF) w else s)"

text \<open>The loop \<open>for (let i = 75; i < fullDesc.length; i += 74)\<close>, from index \<open>i\<close>.\<close>

function descContinuations :: "string \<Rightarrow> nat \<Rightarrow> string list" where
  "descContinuations fullDesc i =
     (if i < length fullDesc then
        (CHR '' '' # take 74 (drop i fullDesc)) # descContinuations fullDesc (i + 74)
      else [])"
  by pat_completeness auto
termination
  by (relation "measure (\<lambda>(fullDesc, i). length fullDesc - i)") auto

declare descContinuations.simps [simp del]

definition descPart :: "string \<Rightarrow> string" where
  "descPart line =
     (if CHR '':'' \<in> set line then drop (Suc (length (takeWhile notColon line))) line
      else if startsWith line '' '' \<or> startsWith line [TAB] then drop 1 line
      else line)"

definition fixDescription :: "string list \<Rightarrow> string list" where
  "fixDescription descLines =
     (if descLines = [] then []
      else
        (let fullDesc = stripTrailingNewline (stripTrailingBackslash (concat (map descPart descLines)))
         in if list_all isSpace fullDesc then []
            else if length fullDesc \<le> 75 then [''DESCRIPTION:'' @ fullDesc]
            else (''DESCRIPTION:'' @ take 75 fullDesc) # descContinuations fullDesc 75))"

text \<open>
  The state of the loop of \<open>sortVEventFields\<close>: the map \<open>fields\<close> (here \<open>fieldsMap\<close>), the two lists, the
  field being collected (\<open>None\<close> for \<open>null\<close>) and its lines.
\<close>

record sort_state =
  fieldsMap :: "string \<Rightarrow> string list option"
  xFields :: "string list"
  otherFields :: "string list"
  currentField :: "string option"
  currentFieldLines :: "string list"

text \<open>
  Saving the field being collected: \<open>fields.set\<close> replaces the lines kept under the
  same name, the two lists are appended to.
\<close>

definition saveField :: "sort_state \<Rightarrow> sort_state" where
  "saveField st =
     (case currentField st of
        None \<Rightarrow> st
      | Some f \<Rightarrow>
          if startsWith f ''X-'' then st\<lparr> xFields := xFields st @ currentFieldLines st \<rparr>
          else if f \<in> set fieldOrder then
            st\<lparr> fieldsMap := (fieldsMap st)(f \<mapsto> currentFieldLines st) \<rparr>
          else st\<lparr> otherFields := otherFields st @ currentFieldLines st \<rparr>)"

definition sortStep :: "sort_state \<Rightarrow> string \<Rightarrow> sort_state" where
  "sortStep st line =
     (let fieldName = getFieldName line
      in if fieldName = [] then
           (if currentField st \<noteq> None
            then st\<lparr> currentFieldLines := currentFieldLines st @ [line] \<rparr> else st)
         else
           (let st1 = (if currentField st \<noteq> None
                       then (saveField st)\<lparr> currentFieldLines := [] \<rparr> else st)
            in st1\<lparr> currentField := Some fieldName,
                    currentFieldLines := currentFieldLines st1 @ [line] \<rparr>))"

definition sortInit :: sort_state where
  "sortInit = \<lparr> fieldsMap = Map.empty, xFields = [], otherFields = [],
                currentField = None, currentFieldLines = [] \<rparr>"

definition emitField :: "sort_state \<Rightarrow> string \<Rightarrow> string list" where
  "emitField st fieldName =
     (case fieldsMap st fieldName of
        None \<Rightarrow> []
      | Some fieldLines \<Rightarrow>
          if fieldName = ''DESCRIPTION'' then fixDescription fieldLines else fieldLines)"

definition sortVEventFields :: "string list \<Rightarrow> string list" where
  "sortVEventFields eventLines =
     (let st = saveField (foldl sortStep sortInit eventLines)
      in concat (map (emitField st) fieldOrder) @ otherFields st @ xFields st)"

text \<open>
  The loop of \<open>fixVEventStructure\<close> over the lines, with its three variables, and the
  handling of a document that ends inside an event.
\<close>

fun fixLoop :: "string list \<Rightarrow> string list \<Rightarrow> bool \<Rightarrow> string list \<Rightarrow> string list" where
  "fixLoop result currentVEvent insideVEvent [] =
     (if insideVEvent \<and> currentVEvent \<noteq> []
      then result @ sortVEventFields currentVEvent @ [''END:VEVENT'']
      else result)"
| "fixLoop result currentVEvent insideVEvent (line # rest) =
     (let upper = toUpperCase line
      in if upper = ''BEGIN:VEVENT'' then fixLoop result [line] True rest
         else if upper = ''END:VEVENT'' then
           (if insideVEvent then
              fixLoop (result @ sortVEventFields currentVEvent @ [''END:VEVENT'']) [] False rest
            else fixLoop (result @ [line]) currentVEvent insideVEvent rest)
         else if insideVEvent then fixLoop result (currentVEvent @ [line]) insideVEvent rest
         else fixLoop (result @ [line]) currentVEvent insideVEvent rest)"

definition fixVEventStructure :: "string list \<Rightarrow> string list" where
  "fixVEventStructure lines = fixLoop [] [] False lines"

subsection \<open>The transform\<close>

text \<open>The lines that \<open>transformIcs\<close> hands to the folder.\<close>

definition transformIcsLines :: "luxon_env \<Rightarrow> string \<Rightarrow> string \<Rightarrow> bool \<Rightarrow> string list" where
  "transformIcsLines env ics tz override =
     (let lines = unfoldICSLines ics;
          transformed = transformLines env \<lparr> targetTz = tz, overrideExistingTz = override \<rparr> False lines
      in fixVEventStructure (updateProdid (integrateVtimezone tz transformed)))"

definition transformIcs :: "luxon_env \<Rightarrow> string \<Rightarrow> string \<Rightarrow> bool \<Rightarrow> string" where
  "transformIcs env ics tz override = foldICSLines (transformIcsLines env ics tz override) @ [CR, LF]"

section \<open>Character classes of date-time texts\<close>

text \<open>
  Two classes used to describe texts: the characters of a text that the format accepts
  (digits and the letter \<open>T\<close> in either case), and the characters that printing a
  number produces (digits and the minus sign).
\<close>

definition basicChar :: "char \<Rightarrow> bool" where
  "basicChar c = (isDigit c \<or> c = CHR ''T'' \<or> c = CHR ''t'')"

definition dateChar :: "char \<Rightarrow> bool" where
  "dateChar c = (isDigit c \<or> c = CHR ''-'')"


section \<open>Facts about the rewriter\<close>

lemma ciUpper_append [simp]: "ciUpper (a @ b) = ciUpper a @ ciUpper b"
  by (simp add: ciUpper_def)

lemma length_ciUpper [simp]: "length (ciUpper s) = length s"
  by (simp add: ciUpper_def)

lemma ciUpper_Nil [simp]: "ciUpper [] = []"
  by (simp add: ciUpper_def)

lemma ciUpper_Cons [simp]: "ciUpper (c # cs) = upperChar c # ciUpper cs"
  by (simp add: ciUpper_def)

lemma toUpperCase_append [simp]: "toUpperCase (a @ b) = toUpperCase a @ toUpperCase b"
  by (simp add: toUpperCase_def)

lemma toUpperCase_Nil [simp]: "toUpperCase [] = []"
  by (simp add: toUpperCase_def)

lemma toUpperCase_Cons [simp]: "toUpperCase (c # cs) = upperString c @ toUpperCase cs"
  by (simp add: toUpperCase_def)

lemma upperChar_ascii: "of_char (upperChar c) < (128::nat) \<Longrightarrow> of_char c < (128::nat)"
proof (cases "map_of (zip ''abcdefghijklmnopqrstuvwxyz'' ''ABCDEFGHIJKLMNOPQRSTUVWXYZ'') c")
  case None
  then show "of_char (upperChar c) < (128::nat) \<Longrightarrow> of_char c < (128::nat)"
    by (simp add: upperChar_def)
next
  case (Some u)
  then have "c \<in> set ''abcdefghijklmnopqrstuvwxyz''"
    by (meson map_of_SomeD set_zip_leftD)
  then show "of_char c < (128::nat)" by auto
qed

lemma latin1_not_ascii:
  assumes "c \<in> set [CHR 0xE0, CHR 0xE1, CHR 0xE2, CHR 0xE3, CHR 0xE4, CHR 0xE5, CHR 0xE6, CHR 0xE7,
               CHR 0xE8, CHR 0xE9, CHR 0xEA, CHR 0xEB, CHR 0xEC, CHR 0xED, CHR 0xEE, CHR 0xEF,
               CHR 0xF0, CHR 0xF1, CHR 0xF2, CHR 0xF3, CHR 0xF4, CHR 0xF5, CHR 0xF6,
               CHR 0xF8, CHR 0xF9, CHR 0xFA, CHR 0xFB, CHR 0xFC, CHR 0xFD, CHR 0xFE]"
  shows "\<not> of_char c < (128::nat)"
  using assms by auto

lemma upperString_ascii:
  assumes "of_char c < (128::nat)"
  shows "upperString c = [upperChar c]"
proof -
  have a: "c \<noteq> CHR 0xDF" using assms by auto
  have "c \<notin> set [CHR 0xE0, CHR 0xE1, CHR 0xE2, CHR 0xE3, CHR 0xE4, CHR 0xE5, CHR 0xE6, CHR 0xE7,
               CHR 0xE8, CHR 0xE9, CHR 0xEA, CHR 0xEB, CHR 0xEC, CHR 0xED, CHR 0xEE, CHR 0xEF,
               CHR 0xF0, CHR 0xF1, CHR 0xF2, CHR 0xF3, CHR 0xF4, CHR 0xF5, CHR 0xF6,
               CHR 0xF8, CHR 0xF9, CHR 0xFA, CHR 0xFB, CHR 0xFC, CHR 0xFD, CHR 0xFE]"
    using latin1_not_ascii assms by blast
  then have "map_of (zip
              [CHR 0xE0, CHR 0xE1, CHR 0xE2, CHR 0xE3, CHR 0xE4, CHR 0xE5, CHR 0xE6, CHR 0xE7,
               CHR 0xE8, CHR 0xE9, CHR 0xEA, CHR 0xEB, CHR 0xEC, CHR 0xED, CHR 0xEE, CHR 0xEF,
               CHR 0xF0, CHR 0xF1, CHR 0xF2, CHR 0xF3, CHR 0xF4, CHR 0xF5, CHR 0xF6,
               CHR 0xF8, CHR 0xF9, CHR 0xFA, CHR 0xFB, CHR 0xFC, CHR 0xFD, CHR 0xFE]
              [CHR 0xC0, CHR 0xC1, CHR 0xC2, CHR 0xC3, CHR 0xC4, CHR 0xC5, CHR 0xC6, CHR 0xC7,
               CHR 0xC8, CHR 0xC9, CHR 0xCA, CHR 0xCB, CHR 0xCC, CHR 0xCD, CHR 0xCE, CHR 0xCF,
               CHR 0xD0, CHR 0xD1, CHR 0xD2, CHR 0xD3, CHR 0xD4, CHR 0xD5, CHR 0xD6,
               CHR 0xD8, CHR 0xD9, CHR 0xDA, CHR 0xDB, CHR 0xDC, CHR 0xDD, CHR 0xDE]) c = None"
    by (subst map_of_zip_is_None) simp_all
  then show ?thesis using a unfolding upperString_def by simp
qed

lemma toUpperCase_ascii:
  "list_all (\<lambda>c. of_char c < (128::nat)) s \<Longrightarrow> toUpperCase s = ciUpper s"
  by (induction s) (simp_all add: upperString_ascii)

lemma dtProps_ascii:
  assumes "ciUpper name \<in> set dtProps"
  shows "list_all (\<lambda>c. of_char c < (128::nat)) name"
proof -
  have "list_all (\<lambda>c. of_char c < (128::nat)) (ciUpper name)"
    using assms by (auto simp: dtProps_def)
  then have "list_all (\<lambda>c. of_char (upperChar c) < (128::nat)) name"
    by (simp add: ciUpper_def list_all_iff)
  then show ?thesis using upperChar_ascii by (auto simp: list_all_iff)
qed

lemma toUpperCase_name:
  "ciUpper name \<in> set dtProps \<Longrightarrow> toUpperCase (name @ rest) = ciUpper name @ toUpperCase rest"
  by (simp add: toUpperCase_ascii dtProps_ascii)

lemma matchRest_noparams:
  "v \<noteq> [] \<Longrightarrow> list_all isValueChar v \<Longrightarrow> matchRest (CHR '':'' # v) = Some (None, v)"
  by (simp add: matchRest_def)

lemma takeWhile_stop: "list_all P p \<Longrightarrow> \<not> P c \<Longrightarrow> takeWhile P (p @ c # v) = p"
  by (induction p) auto

lemma matchRest_params:
  assumes "p \<noteq> []" "CHR '':'' \<notin> set p" "v \<noteq> []" "list_all isValueChar v"
  shows "matchRest (CHR '';'' # p @ CHR '':'' # v) = Some (Some (CHR '';'' # p), v)"
proof -
  have tw: "takeWhile notColon (p @ CHR '':'' # v) = p"
    by (rule takeWhile_stop) (use assms(2) in \<open>auto simp: notColon_def list_all_iff\<close>)
  show ?thesis
    using assms by (simp add: matchRest_def tw Let_def)
qed

lemma matchDateTimeLine_shape:
  assumes "ciUpper prop \<in> set dtProps" and "matchRest rest = Some (params, v)"
  shows "matchDateTimeLine (prop @ rest) = Some (prop, params, v)"
proof -
  have len: "length prop = length (ciUpper prop)" by simp
  from assms(1) consider "ciUpper prop = ''DTSTART''" | "ciUpper prop = ''DTEND''"
    | "ciUpper prop = ''RECURRENCE-ID''" | "ciUpper prop = ''EXDATE''"
    by (auto simp: dtProps_def)
  then show ?thesis
  proof cases
    case 1
    then have "length prop = 7" using len by simp
    with 1 assms(2) show ?thesis
      by (simp add: matchDateTimeLine_def dtProps_def ciPrefix_def)
  next
    case 2
    then have "length prop = 5" using len by simp
    with 2 assms(2) show ?thesis
      by (simp add: matchDateTimeLine_def dtProps_def ciPrefix_def)
  next
    case 3
    then have "length prop = 13" using len by simp
    with 3 assms(2) show ?thesis
      by (simp add: matchDateTimeLine_def dtProps_def ciPrefix_def)
  next
    case 4
    then have "length prop = 6" using len by simp
    with 4 assms(2) show ?thesis
      by (simp add: matchDateTimeLine_def dtProps_def ciPrefix_def)
  qed
qed



lemma upperChar_T: "upperChar c = CHR ''T'' \<longleftrightarrow> c = CHR ''T'' \<or> c = CHR ''t''"
  by (auto simp: upperChar_def split: if_splits)

lemma isDigit_not_special:
  "isDigit c \<Longrightarrow> c \<noteq> CHR '','' \<and> c \<noteq> CHR ''Z'' \<and> c \<noteq> CR \<and> c \<noteq> LF \<and> c \<noteq> CHR ''T'' \<and> c \<noteq> CHR ''t''"
  by (auto simp: isDigit_def CR_def LF_def)

lemma matchFormat_split:
  assumes "matchFormat hs s = Some d"
  shows "length s = (if hs then 15 else 13)" "list_all isDigit (take 8 s)"
    "upperChar (s ! 8) = CHR ''T''" "list_all isDigit (drop 9 s)"
  using assms by (auto simp: matchFormat_def split: if_splits)

lemma matchFormat_chars:
  assumes "matchFormat hs s = Some d"
  shows "list_all basicChar s"
proof -
  note m = matchFormat_split [OF assms]
  have "8 < length s" using m(1) by (simp split: if_splits)
  then have "s = take 8 s @ s ! 8 # drop 9 s"
    using id_take_nth_drop [of 8 s] by simp
  moreover have "list_all basicChar (take 8 s @ s ! 8 # drop 9 s)"
    using m(2,3,4) by (auto simp: basicChar_def upperChar_T list_all_iff)
  ultimately show ?thesis by simp
qed

lemma basicChar_props:
  "basicChar c \<Longrightarrow> c \<noteq> CHR ''Z'' \<and> c \<noteq> CHR '','' \<and> isValueChar c"
  using isDigit_not_special [of c]
  by (auto simp: basicChar_def isValueChar_def CR_def LF_def)

lemma matchFormat_hasSeconds:
  assumes "matchFormat hs s = Some d" and "s ! 8 = CHR ''T''"
  shows "hasSecondsOf s = hs"
proof (cases hs)
  case True
  then have "length s = 15" using matchFormat_split(1) [OF assms(1)] by simp
  then show ?thesis
    using True assms(2) matchFormat_split(4) [OF assms(1)]
    by (simp add: hasSecondsOf_def Let_def)
next
  case False
  then have len: "length s = 13" using matchFormat_split(1) [OF assms(1)] by simp
  have "isDigit (take 8 s ! 6)"
    using matchFormat_split(2) [OF assms(1)] len by (simp add: list_all_length)
  then have "isDigit (s ! 6)" by simp
  then have "s ! 6 \<noteq> CHR ''T''" using isDigit_not_special by blast
  then show ?thesis using False len by (simp add: hasSecondsOf_def Let_def)
qed

lemma normalizeZone_utc: "normalizeZone env ''utc'' = Some (\<lambda>ts. 0)"
  by (simp add: normalizeZone_def upperChar_def)

lemma fromFormat_utc:
  assumes "matchFormat hs s = Some d"
  shows "fromFormat env s hs ''utc'' = (if validObj d then Some (objToLocalTS d) else None)"
  using assms by (simp add: fromFormat_def normalizeZone_utc fixOffset_def)

lemma remove1_absent: "x \<notin> set xs \<Longrightarrow> remove1 x (xs @ [x]) = xs"
  by (induction xs) auto

lemma transformDateTimeLine_utc:
  assumes nm: "ciUpper prop \<in> set dtProps"
    and pa: "case params of None \<Rightarrow> True
                 | Some s \<Rightarrow> \<exists>p. s = CHR '';'' # p \<and> p \<noteq> [] \<and> CHR '':'' \<notin> set p"
    and ln: "line = prop @ (case params of None \<Rightarrow> [] | Some s \<Rightarrow> s) @ '':'' @ digits @ ''Z''"
    and notAllDay: "\<not> isAllDay line"
    and digits: "matchFormat hs digits = Some d" "validObj d" "digits ! 8 = CHR ''T''"
  shows "transformDateTimeLine env line opts
         = prop @ buildParams params (''TZID='' @ targetTz opts) @ '':''
             @ setZoneToFormat env (objToLocalTS d) (targetTz opts) hs"
proof -
  have chars: "list_all basicChar digits" using digits(1) by (rule matchFormat_chars)
  have noZ: "CHR ''Z'' \<notin> set digits"
    using chars basicChar_props by (auto simp: list_all_iff)
  have vc: "list_all isValueChar (digits @ ''Z'')"
    using chars basicChar_props by (auto simp: list_all_iff isValueChar_def CR_def LF_def)
  have rest: "matchRest ((case params of None \<Rightarrow> [] | Some s \<Rightarrow> s) @ '':'' @ digits @ ''Z'')
              = Some (params, digits @ ''Z'')"
  proof (cases params)
    case None
    then show ?thesis using matchRest_noparams [OF _ vc] by simp
  next
    case (Some s)
    with pa obtain p where p: "s = CHR '';'' # p" "p \<noteq> []" "CHR '':'' \<notin> set p" by auto
    show ?thesis using matchRest_params [OF p(2,3) _ vc] Some p(1) by simp
  qed
  have m: "matchDateTimeLine line = Some (prop, params, digits @ ''Z'')"
    unfolding ln by (rule matchDateTimeLine_shape [OF nm rest])
  have rm: "remove1 (CHR ''Z'') (digits @ ''Z'') = digits"
    using remove1_absent [OF noZ] by simp
  have hs: "hasSecondsOf digits = hs" using digits(1,3) by (rule matchFormat_hasSeconds)
  show ?thesis
    using notAllDay digits(2)
    by (simp add: transformDateTimeLine_def m Let_def endsWith_def rm hs fromFormat_utc [OF digits(1)])
qed

lemma transformLines_append:
  "transformLines env opts b (pre @ rest)
   = transformLines env opts b pre @ transformLines env opts (insideVTimezoneAfter b pre) rest"
  by (induction pre arbitrary: b) (simp_all add: Let_def)

lemma length_transformLines [simp]: "length (transformLines env opts b ls) = length ls"
  by (induction ls arbitrary: b) (simp_all add: Let_def)

lemma transformLines_dt_line:
  assumes "ciUpper prop \<in> set dtProps" and "\<not> b"
  shows "transformLines env opts b ((prop @ rest) # post)
         = transformDateTimeLine env (prop @ rest) opts # transformLines env opts b post"
  using assms toUpperCase_name [OF assms(1), of rest]
  by (auto simp: dtProps_def Let_def isDateTimeName_def startsWith_def)


lemma joinWith_Cons: "joinWith sep (x # xs) = x @ concat (map (\<lambda>y. sep @ y) xs)"
  by (induction xs arbitrary: x) simp_all

lemma buildParams_text:
  "buildParams params inject
   = '';'' @ inject @ concat (map (\<lambda>kv. '';'' @ kv) (filter (\<lambda>kv. \<not> isTzidParam kv) (paramParts params)))"
  by (simp add: buildParams_def joinWith_Cons)

lemma isDigit_digitChar: "n < 10 \<Longrightarrow> isDigit (digitChar n)"
proof -
  assume "n < 10"
  then have "n \<in> {0, 1, 2, 3, 4, 5, 6, 7, 8, 9}" by auto
  then show ?thesis by (auto simp: digitChar_def isDigit_def)
qed

lemma digitsOf_digits: "list_all isDigit (digitsOf n) \<and> digitsOf n \<noteq> []"
proof (induction n rule: digitsOf.induct)
  case (1 n)
  show ?case
  proof (cases "n < 10")
    case True
    then show ?thesis by (simp add: digitsOf.simps [of n] isDigit_digitChar)
  next
    case False
    then show ?thesis
      using 1 by (simp add: digitsOf.simps [of n] isDigit_digitChar)
  qed
qed

lemma isDigit_0: "isDigit (CHR ''0'')"
  by (simp add: isDigit_def)

lemma padStart_chars: "list_all dateChar (padStart i n)"
  using digitsOf_digits isDigit_0
  by (auto simp: padStart_def dateChar_def list_all_iff)

lemma padStart_length: "n \<le> length (padStart i n)"
  by (auto simp: padStart_def)

lemma length_digitsOf_small: "n < 100 \<Longrightarrow> length (digitsOf n) \<le> 2"
  by (simp add: digitsOf.simps [of n] digitsOf.simps [of "n div 10"])

lemma padStart2:
  assumes "0 \<le> i" and "i < 100"
  shows "length (padStart i 2) = 2 \<and> list_all isDigit (padStart i 2)"
proof -
  have "nat i < 100" using assms by simp
  then have "length (digitsOf (nat i)) \<le> 2" by (rule length_digitsOf_small)
  then show ?thesis
    using assms(1) digitsOf_digits [of "nat i"] isDigit_0
    by (auto simp: padStart_def list_all_iff)
qed

lemma day_seconds_range:
  fixes t :: int
  shows "0 \<le> t mod 86400 div 3600 \<and> t mod 86400 div 3600 < 100
       \<and> 0 \<le> t mod 86400 mod 3600 div 60 \<and> t mod 86400 mod 3600 div 60 < 100
       \<and> 0 \<le> t mod 86400 mod 60 \<and> t mod 86400 mod 60 < 100"
proof -
  define r where "r = t mod 86400"
  have r: "0 \<le> r" "r < 86400" by (simp_all add: r_def)
  define q where "q = r mod 3600"
  have q: "0 \<le> q" "q < 3600" by (simp_all add: q_def)
  have "0 \<le> r div 3600" "r div 3600 < 100" using r by auto
  moreover have "0 \<le> q div 60" "q div 60 < 100" using q by auto
  moreover have "0 \<le> r mod 60" "r mod 60 < 100"
  proof -
    show "0 \<le> r mod 60" by simp
    have "r mod 60 < 60" by simp
    then show "r mod 60 < 100" by linarith
  qed
  ultimately show ?thesis by (simp add: r_def q_def)
qed

lemma tsToObj_time_range:
  "0 \<le> hour (tsToObj ts off) \<and> hour (tsToObj ts off) < 100
   \<and> 0 \<le> minute (tsToObj ts off) \<and> minute (tsToObj ts off) < 100
   \<and> 0 \<le> second (tsToObj ts off) \<and> second (tsToObj ts off) < 100"
  using day_seconds_range [of "ts + off"]
  by (simp add: tsToObj_def Let_def split: prod.splits)

lemma formatObj_shape:
  "\<exists>dt tm. formatObj hs (tsToObj ts off) = dt @ CHR ''T'' # tm
     \<and> list_all dateChar dt \<and> 2 \<le> length dt
     \<and> list_all isDigit tm \<and> length tm = (if hs then 6 else 4)"
proof -
  define ob where "ob = tsToObj ts off"
  define dt where "dt = padStart (year ob) 4 @ padStart (month ob) 2 @ padStart (day ob) 2"
  define tm where "tm = padStart (hour ob) 2 @ padStart (minute ob) 2
               @ (if hs then padStart (second ob) 2 else [])"
  note r = tsToObj_time_range [of ts off, folded ob_def]
  have h: "length (padStart (hour ob) 2) = 2 \<and> list_all isDigit (padStart (hour ob) 2)"
    using r by (intro padStart2) auto
  have m: "length (padStart (minute ob) 2) = 2 \<and> list_all isDigit (padStart (minute ob) 2)"
    using r by (intro padStart2) auto
  have s: "length (padStart (second ob) 2) = 2 \<and> list_all isDigit (padStart (second ob) 2)"
    using r by (intro padStart2) auto
  have "formatObj hs ob = dt @ CHR ''T'' # tm" by (simp add: formatObj_def dt_def tm_def)
  moreover have "list_all dateChar dt" by (simp add: padStart_chars dt_def)
  moreover have "2 \<le> length dt" using padStart_length [of 2 "day ob"] by (simp add: dt_def)
  moreover have "list_all isDigit tm" using h m s by (simp add: tm_def)
  moreover have "length tm = (if hs then 6 else 4)" using h m s by (simp add: tm_def)
  ultimately show ?thesis unfolding ob_def by blast
qed

lemma not_endsWith_Z:
  assumes "tm \<noteq> []" and "list_all isDigit tm"
  shows "\<not> endsWith (dt @ c # tm) ''Z''"
proof
  assume "endsWith (dt @ c # tm) ''Z''"
  then obtain zs where "dt @ c # tm = zs @ ''Z''" by (auto simp: endsWith_def suffix_def)
  then have "last (dt @ c # tm) = CHR ''Z''" by simp
  then have "last tm = CHR ''Z''" using assms(1) by simp
  moreover have "isDigit (last tm)" using assms by (simp add: list_all_iff)
  ultimately show False using isDigit_not_special by auto
qed

lemma hasSecondsOf_shape:
  assumes "list_all dateChar dt" and "2 \<le> length dt"
    and "list_all isDigit tm" and "length tm = (if hs then 6 else 4)"
  shows "hasSecondsOf (dt @ CHR ''T'' # tm) = hs"
proof (cases hs)
  case True
  then have "length (dt @ CHR ''T'' # tm) - 7 = length dt"
    and "length (dt @ CHR ''T'' # tm) - 6 = Suc (length dt)" using assms(4) by simp_all
  then show ?thesis
    using True assms(3,4) by (simp add: hasSecondsOf_def Let_def)
next
  case False
  then have i: "length (dt @ CHR ''T'' # tm) - 7 = length dt - 2" using assms(4) by simp
  have "length dt - 2 < length dt" using assms(2) by simp
  then have "dateChar (dt ! (length dt - 2))" using assms(1) by (simp add: list_all_length)
  then have "dt ! (length dt - 2) \<noteq> CHR ''T''"
    using isDigit_not_special by (auto simp: dateChar_def)
  then have "(dt @ CHR ''T'' # tm) ! (length dt - 2) \<noteq> CHR ''T''"
    using assms(2) by (simp add: nth_append)
  then show ?thesis using False i by (simp add: hasSecondsOf_def Let_def)
qed

lemma formatObj_no_trailing_Z: "\<not> endsWith (formatObj hs (tsToObj ts off)) ''Z''"
proof -
  obtain dt tm where f: "formatObj hs (tsToObj ts off) = dt @ CHR ''T'' # tm"
    and tm: "list_all isDigit tm" "length tm = (if hs then 6 else 4)"
    using formatObj_shape [of hs ts off] by blast
  have "tm \<noteq> []" using tm(2) by (auto split: if_splits)
  then show ?thesis unfolding f using tm(1) by (rule not_endsWith_Z)
qed

lemma formatObj_hasSeconds: "hasSecondsOf (formatObj hs (tsToObj ts off)) = hs"
proof -
  obtain dt tm where f: "formatObj hs (tsToObj ts off) = dt @ CHR ''T'' # tm"
    and dt: "list_all dateChar dt" "2 \<le> length dt"
    and tm: "list_all isDigit tm" "length tm = (if hs then 6 else 4)"
    using formatObj_shape [of hs ts off] by blast
  show ?thesis unfolding f using dt tm by (rule hasSecondsOf_shape)
qed


section \<open>The parameters of a rewritten line\<close>

lemma splitOn_noSep: "d \<notin> set s \<Longrightarrow> splitOn d s = [s]"
  by (induction s) auto

lemma splitOn_sep: "d \<notin> set s \<Longrightarrow> splitOn d (s @ d # t) = s # splitOn d t"
  by (induction s) auto

lemma splitOn_not_Nil [simp]: "splitOn d s \<noteq> []"
  by (induction s) (auto split: list.splits)

lemma splitOn_parts:
  "x \<in> set (splitOn d s) \<Longrightarrow> d \<notin> set x \<and> set x \<subseteq> set s"
proof (induction s arbitrary: x)
  case Nil
  then show ?case by simp
next
  case (Cons c cs)
  show ?case
  proof (cases "c = d")
    case True
    then show ?thesis using Cons.prems Cons.IH by auto
  next
    case False
    obtain r rs where sp: "splitOn d cs = r # rs" by (cases "splitOn d cs") auto
    then have "x = c # r \<or> x \<in> set rs" using Cons.prems False by simp
    then show ?thesis
    proof
      assume "x = c # r"
      moreover have "d \<notin> set r \<and> set r \<subseteq> set cs" using Cons.IH [of r] sp by simp
      ultimately show ?thesis using False by auto
    next
      assume "x \<in> set rs"
      then have "x \<in> set (splitOn d cs)" using sp by simp
      then show ?thesis using Cons.IH [of x] by auto
    qed
  qed
qed

lemma splitOn_joinWith:
  "xs \<noteq> [] \<Longrightarrow> \<forall>x \<in> set xs. d \<notin> set x \<Longrightarrow> splitOn d (joinWith [d] xs) = xs"
proof (induction xs)
  case Nil
  then show ?case by simp
next
  case (Cons x xs)
  show ?case
  proof (cases xs)
    case Nil
    then show ?thesis using Cons.prems by (simp add: splitOn_noSep)
  next
    case (Cons y ys)
    then have "splitOn d (joinWith [d] xs) = xs" using Cons.IH Cons.prems by simp
    then show ?thesis using Cons Cons.prems by (simp add: splitOn_sep)
  qed
qed

lemma joinWith_set:
  "set (joinWith sep xs) \<subseteq> set sep \<union> \<Union> (set ` set xs)"
  by (induction sep xs rule: joinWith.induct) auto

lemma takeWhile_notColon_split:
  "length (takeWhile notColon r) < length r \<Longrightarrow>
     r = takeWhile notColon r @ CHR '':'' # drop (Suc (length (takeWhile notColon r))) r"
  by (induction r) (auto simp: notColon_def)

lemma matchRest_SomeD:
  assumes "matchRest rest = Some (params, v)"
  shows "v \<noteq> [] \<and> list_all isValueChar v
         \<and> (case params of
              None \<Rightarrow> rest = CHR '':'' # v
            | Some s \<Rightarrow> \<exists>ps. s = CHR '';'' # ps \<and> ps \<noteq> [] \<and> CHR '':'' \<notin> set ps
                         \<and> rest = CHR '';'' # ps @ CHR '':'' # v)"
proof (cases rest)
  case Nil
  then show ?thesis using assms by (simp add: matchRest_def)
next
  case (Cons c r)
  show ?thesis
  proof (cases "c = CHR '';''")
    case True
    let ?ps = "takeWhile notColon r"
    from assms Cons True have a: "?ps \<noteq> []" "length ?ps < length r"
      "v = drop (Suc (length ?ps)) r" "v \<noteq> []" "list_all isValueChar v"
      "params = Some (c # ?ps)"
      by (auto simp: matchRest_def Let_def split: if_splits)
    have "CHR '':'' \<notin> set ?ps"
      using set_takeWhileD [of "CHR '':''" notColon r] by (auto simp: notColon_def)
    moreover have "r = ?ps @ CHR '':'' # v"
      using takeWhile_notColon_split [OF a(2)] a(3) by simp
    ultimately show ?thesis using a Cons True by auto
  next
    case False
    then show ?thesis using assms Cons
      by (auto simp: matchRest_def split: if_splits)
  qed
qed

lemma matchLineWith_SomeD:
  "matchLineWith ps line = Some (name, params, v) \<Longrightarrow>
     \<exists>p \<in> set ps. ciPrefix p line \<and> name = take (length p) line
        \<and> matchRest (drop (length p) line) = Some (params, v)"
  by (induction ps) (auto split: option.splits if_splits)

lemma ciPrefix_take: "ciPrefix p line \<Longrightarrow> ciUpper (take (length p) line) = p"
  by (auto simp: ciPrefix_def ciUpper_def prefix_def take_map [symmetric])

lemma matchDateTimeLine_SomeD:
  assumes "matchDateTimeLine line = Some (name, params, v)"
  shows "ciUpper name \<in> set dtProps
         \<and> (\<exists>rest. line = name @ rest \<and> matchRest rest = Some (params, v))"
proof -
  obtain p where p: "p \<in> set dtProps" "ciPrefix p line" "name = take (length p) line"
    "matchRest (drop (length p) line) = Some (params, v)"
    using matchLineWith_SomeD [of dtProps line name params v] assms
    by (auto simp: matchDateTimeLine_def)
  have "ciUpper name = p" using ciPrefix_take [OF p(2)] p(3) by simp
  moreover have "line = name @ drop (length p) line" using p(3) by simp
  ultimately show ?thesis using p(1,4) by blast
qed

lemma dateChar_value: "dateChar c \<Longrightarrow> isValueChar c"
  using isDigit_not_special [of c] by (auto simp: dateChar_def isValueChar_def CR_def LF_def)

lemma setZoneToFormat_value:
  "setZoneToFormat env ts zone hs \<noteq> [] \<and> list_all isValueChar (setZoneToFormat env ts zone hs)"
proof (cases "normalizeZone env zone")
  case None
  then show ?thesis by (simp add: setZoneToFormat_def isValueChar_def CR_def LF_def)
next
  case (Some tz)
  obtain dt tm where s: "formatObj hs (tsToObj ts (tz ts)) = dt @ CHR ''T'' # tm"
    "list_all dateChar dt" "list_all isDigit tm"
    using formatObj_shape [of hs ts "tz ts"] by blast
  have "list_all isValueChar dt" using s(2) dateChar_value by (auto simp: list_all_iff)
  moreover have "list_all isValueChar tm"
    using s(3) dateChar_value by (auto simp: list_all_iff dateChar_def)
  moreover have "isValueChar (CHR ''T'')" by (simp add: isValueChar_def CR_def LF_def)
  ultimately show ?thesis using Some s(1) by (simp add: setZoneToFormat_def)
qed

lemma remove1_Z_value:
  assumes "v \<noteq> []" and "list_all isValueChar v" and "\<not> endsWith v ''Z''"
  shows "remove1 (CHR ''Z'') v \<noteq> [] \<and> list_all isValueChar (remove1 (CHR ''Z'') v)"
proof -
  have "remove1 (CHR ''Z'') v \<noteq> []"
  proof
    assume e: "remove1 (CHR ''Z'') v = []"
    obtain c cs where v: "v = c # cs" using assms(1) by (cases v) auto
    show False
    proof (cases "c = CHR ''Z''")
      case True
      then have "cs = []" using e v by simp
      then show False using assms(3) v True by (simp add: endsWith_def)
    next
      case False
      then show False using e v by simp
    qed
  qed
  moreover have "list_all isValueChar (remove1 (CHR ''Z'') v)"
    using assms(2) set_remove1_subset [of "CHR ''Z''" v] by (auto simp: list_all_iff)
  ultimately show ?thesis by simp
qed

lemma isTzidParam_inject: "isTzidParam (''TZID='' @ tz)"
  by (simp add: isTzidParam_def startsWith_def upperString_def upperChar_def)

lemma transformDateTimeLine_modified:
  assumes "transformDateTimeLine env line opts \<noteq> line"
  shows "\<exists>name params v newValue.
           matchDateTimeLine line = Some (name, params, v)
           \<and> transformDateTimeLine env line opts
               = name @ buildParams params (''TZID='' @ targetTz opts) @ '':'' @ newValue
           \<and> newValue \<noteq> [] \<and> list_all isValueChar newValue"
proof (cases "matchDateTimeLine line")
  case None
  then show ?thesis using assms by (simp add: transformDateTimeLine_def)
next
  case (Some m)
  obtain name params v where m: "m = (name, params, v)" by (cases m) auto
  have mv: "v \<noteq> []" "list_all isValueChar v"
    using matchDateTimeLine_SomeD [of line name params v] matchRest_SomeD [of _ params v] Some m
    by auto
  let ?bp = "name @ buildParams params (''TZID='' @ targetTz opts) @ '':''"
  from assms consider
      ts hs where "transformDateTimeLine env line opts = ?bp @ setZoneToFormat env ts (targetTz opts) hs"
    | "\<not> endsWith v ''Z''" "transformDateTimeLine env line opts = ?bp @ remove1 (CHR ''Z'') v"
    by (auto simp: transformDateTimeLine_def Some m Let_def split: if_splits option.splits)
  then show ?thesis
  proof cases
    case 1
    then show ?thesis using Some m setZoneToFormat_value [of env ts "targetTz opts" hs] by auto
  next
    case 2
    then show ?thesis using Some m remove1_Z_value [OF mv 2(1)] by auto
  qed
qed

lemma paramParts_built:
  assumes "case params of None \<Rightarrow> True | Some s \<Rightarrow> \<exists>ps. s = CHR '';'' # ps \<and> CHR '':'' \<notin> set ps"
    and "CHR '';'' \<notin> set tz" and "CHR '':'' \<notin> set tz"
    and "others = filter (\<lambda>kv. \<not> isTzidParam kv) (paramParts params)"
    and "joined = joinWith '';'' ((''TZID='' @ tz) # others)"
  shows "joined \<noteq> [] \<and> CHR '':'' \<notin> set joined
         \<and> paramParts (Some (CHR '';'' # joined)) = (''TZID='' @ tz) # others
         \<and> buildParams params (''TZID='' @ tz) = CHR '';'' # joined"
proof -
  have parts: "\<forall>x \<in> set (paramParts params). CHR '';'' \<notin> set x \<and> CHR '':'' \<notin> set x"
  proof (cases params)
    case None
    then show ?thesis by (simp add: paramParts_def)
  next
    case (Some s)
    with assms(1) obtain ps where ps: "s = CHR '';'' # ps" "CHR '':'' \<notin> set ps" by auto
    show ?thesis
    proof (cases "ps = []")
      case True
      then show ?thesis using Some ps by (simp add: paramParts_def startsWith_def)
    next
      case False
      then have "paramParts params = splitOn (CHR '';'') ps"
        using Some ps by (simp add: paramParts_def startsWith_def)
      then show ?thesis using splitOn_parts [of _ "CHR '';''" ps] ps(2) by auto
    qed
  qed
  then have oth: "\<forall>x \<in> set others. CHR '';'' \<notin> set x \<and> CHR '':'' \<notin> set x"
    using assms(4) by auto
  let ?xs = "(''TZID='' @ tz) # others"
  have el: "\<forall>x \<in> set ?xs. CHR '';'' \<notin> set x" using oth assms(2) by auto
  have ne: "joined \<noteq> []" unfolding assms(5) by (cases others) auto
  have "set joined \<subseteq> set '';'' \<union> \<Union> (set ` set ?xs)"
    unfolding assms(5) by (rule joinWith_set)
  then have nc: "CHR '':'' \<notin> set joined" using oth assms(3) by auto
  have "splitOn (CHR '';'') joined = ?xs"
    unfolding assms(5) using splitOn_joinWith [of ?xs "CHR '';''"] el by simp
  then have "paramParts (Some (CHR '';'' # joined)) = ?xs"
    using ne by (simp add: paramParts_def startsWith_def)
  moreover have "buildParams params (''TZID='' @ tz) = CHR '';'' # joined"
    unfolding assms(4,5) by (simp add: buildParams_def)
  ultimately show ?thesis using ne nc by simp
qed

text \<open>
  Claim C9, as amended (one \<open>TZID\<close> parameter, first, the others kept in order). The
  claim as stated, for every line that the rewriter modifies, fails when the name of the
  target zone holds a semicolon: \<open>buildParams\<close> joins the injected parameter and the
  others with semicolons, so the target zone \<open>Europe/Zurich;TZID=Foo/Bar\<close>, which
  passes \<open>isLikelyIana\<close>, gives a line with two \<open>TZID\<close> parameters (the
  counterexample after the theorem). What holds: whenever \<open>transformDateTimeLine\<close>
  returns a line other than the one it was given, and the name of the target zone holds
  no semicolon and no colon, the line returned is again a date-time line with the name
  of the input line and with parameters; read as the rewriter reads a line (the pattern
  of \<open>transformDateTimeLine\<close>, the parameters split at the semicolons), the parameters
  of the line returned are \<open>TZID=<target zone>\<close> followed by \<open>others\<close>: the
  parameters of the input line without those that start with \<open>TZID=\<close> in any case, in
  their original order. Exactly one parameter of the line returned is a \<open>TZID\<close>
  parameter, the first one.
\<close>

theorem C9_output_line_has_one_leading_tzid:
  assumes "transformDateTimeLine env line opts \<noteq> line"
    and "CHR '';'' \<notin> set (targetTz opts)" and "CHR '':'' \<notin> set (targetTz opts)"
  shows "\<exists>name params v outParams newValue others.
           matchDateTimeLine line = Some (name, params, v)
           \<and> transformDateTimeLine env line opts = name @ outParams @ '':'' @ newValue
           \<and> matchDateTimeLine (transformDateTimeLine env line opts)
               = Some (name, Some outParams, newValue)
           \<and> others = filter (\<lambda>kv. \<not> isTzidParam kv) (paramParts params)
           \<and> paramParts (Some outParams) = (''TZID='' @ targetTz opts) # others
           \<and> filter isTzidParam (paramParts (Some outParams)) = [''TZID='' @ targetTz opts]"
proof -
  obtain name params v newValue where
    m: "matchDateTimeLine line = Some (name, params, v)"
    and r: "transformDateTimeLine env line opts
              = name @ buildParams params (''TZID='' @ targetTz opts) @ '':'' @ newValue"
    and nv: "newValue \<noteq> []" "list_all isValueChar newValue"
    using transformDateTimeLine_modified [OF assms(1)] by blast
  obtain rest where nm: "ciUpper name \<in> set dtProps" and mr: "matchRest rest = Some (params, v)"
    using matchDateTimeLine_SomeD [OF m] by blast
  have pa: "case params of None \<Rightarrow> True | Some s \<Rightarrow> \<exists>ps. s = CHR '';'' # ps \<and> CHR '':'' \<notin> set ps"
    using matchRest_SomeD [OF mr] by (auto split: option.splits)
  define others where "others = filter (\<lambda>kv. \<not> isTzidParam kv) (paramParts params)"
  define joined where "joined = joinWith '';'' ((''TZID='' @ targetTz opts) # others)"
  have b: "joined \<noteq> []" "CHR '':'' \<notin> set joined"
    "paramParts (Some (CHR '';'' # joined)) = (''TZID='' @ targetTz opts) # others"
    "buildParams params (''TZID='' @ targetTz opts) = CHR '';'' # joined"
    using paramParts_built [OF pa assms(2,3) others_def joined_def] by auto
  have out: "transformDateTimeLine env line opts = name @ (CHR '';'' # joined) @ '':'' @ newValue"
    using r b(4) by simp
  have "matchRest (CHR '';'' # joined @ CHR '':'' # newValue)
        = Some (Some (CHR '';'' # joined), newValue)"
    using b(1,2) nv by (rule matchRest_params)
  then have re: "matchDateTimeLine (transformDateTimeLine env line opts)
                 = Some (name, Some (CHR '';'' # joined), newValue)"
    using matchDateTimeLine_shape [OF nm, of "CHR '';'' # joined @ CHR '':'' # newValue"] out
    by simp
  have "filter isTzidParam others = []" unfolding others_def by (induction "paramParts params") auto
  then have one: "filter isTzidParam ((''TZID='' @ targetTz opts) # others)
                  = [''TZID='' @ targetTz opts]"
    using isTzidParam_inject [of "targetTz opts"] by simp
  show ?thesis
    using m out re others_def b(3) one by (metis (no_types, lifting))
qed

theorem C9_counterexample:
  "isLikelyIana ''Europe/Zurich;TZID=Foo/Bar''
   \<and> transformDateTimeLine \<lparr> zoneOffset = (\<lambda>z. None), nowTs = 0 \<rparr>
       ''DTSTART;X-A=1:20240101T120000''
       \<lparr> targetTz = ''Europe/Zurich;TZID=Foo/Bar'', overrideExistingTz = False \<rparr>
     = ''DTSTART;TZID=Europe/Zurich;TZID=Foo/Bar;X-A=1:20240101T120000''
   \<and> matchDateTimeLine ''DTSTART;TZID=Europe/Zurich;TZID=Foo/Bar;X-A=1:20240101T120000''
     = Some (''DTSTART'', Some '';TZID=Europe/Zurich;TZID=Foo/Bar;X-A=1'', ''20240101T120000'')
   \<and> filter isTzidParam (paramParts (Some '';TZID=Europe/Zurich;TZID=Foo/Bar;X-A=1''))
     = [''TZID=Europe/Zurich'', ''TZID=Foo/Bar'']"
  by code_simp

theorem C9_witness:
  "transformDateTimeLine \<lparr> zoneOffset = (\<lambda>z. None), nowTs = 0 \<rparr>
      ''DTSTART;X-A=1;tzid=Europe/Berlin;X-B=2:20240101T120000Z''
      \<lparr> targetTz = ''UTC'', overrideExistingTz = True \<rparr>
   = ''DTSTART;TZID=UTC;X-A=1;X-B=2:20240101T120000''
   \<and> paramParts (Some '';X-A=1;tzid=Europe/Berlin;X-B=2'')
     = [''X-A=1'', ''tzid=Europe/Berlin'', ''X-B=2'']
   \<and> (\<exists>name params v outParams newValue others.
           matchDateTimeLine ''DTSTART;X-A=1;tzid=Europe/Berlin;X-B=2:20240101T120000Z''
             = Some (name, params, v)
           \<and> ''DTSTART;TZID=UTC;X-A=1;X-B=2:20240101T120000'' = name @ outParams @ '':'' @ newValue
           \<and> matchDateTimeLine ''DTSTART;TZID=UTC;X-A=1;X-B=2:20240101T120000''
               = Some (name, Some outParams, newValue)
           \<and> others = filter (\<lambda>kv. \<not> isTzidParam kv) (paramParts params)
           \<and> paramParts (Some outParams) = ''TZID=UTC'' # others
           \<and> filter isTzidParam (paramParts (Some outParams)) = [''TZID=UTC''])"
proof -
  have e: "transformDateTimeLine \<lparr> zoneOffset = (\<lambda>z. None), nowTs = 0 \<rparr>
      ''DTSTART;X-A=1;tzid=Europe/Berlin;X-B=2:20240101T120000Z''
      \<lparr> targetTz = ''UTC'', overrideExistingTz = True \<rparr>
   = ''DTSTART;TZID=UTC;X-A=1;X-B=2:20240101T120000''" by code_simp
  have p: "paramParts (Some '';X-A=1;tzid=Europe/Berlin;X-B=2'')
     = [''X-A=1'', ''tzid=Europe/Berlin'', ''X-B=2'']" by code_simp
  have n: "transformDateTimeLine \<lparr> zoneOffset = (\<lambda>z. None), nowTs = 0 \<rparr>
      ''DTSTART;X-A=1;tzid=Europe/Berlin;X-B=2:20240101T120000Z''
      \<lparr> targetTz = ''UTC'', overrideExistingTz = True \<rparr>
     \<noteq> ''DTSTART;X-A=1;tzid=Europe/Berlin;X-B=2:20240101T120000Z''"
    unfolding e by simp
  have s: "CHR '';'' \<notin> set (targetTz \<lparr> targetTz = ''UTC'', overrideExistingTz = True \<rparr>)"
    by simp
  have c: "CHR '':'' \<notin> set (targetTz \<lparr> targetTz = ''UTC'', overrideExistingTz = True \<rparr>)"
    by simp
  show ?thesis
    using C9_output_line_has_one_leading_tzid [OF n s c] e p by simp
qed

section \<open>Folding and unfolding\<close>

lemma replaceCRLF_noLF: "LF \<notin> set s \<Longrightarrow> replaceCRLF s = s"
  by (induction s rule: replaceCRLF.induct) auto

lemma replaceCRLF_sep:
  "LF \<notin> set s \<Longrightarrow> replaceCRLF (s @ CR # LF # t) = s @ LF # replaceCRLF t"
proof (induction s)
  case Nil
  then show ?case by simp
next
  case (Cons c s)
  show ?case
  proof (cases s)
    case Nil
    then show ?thesis by (simp add: CR_def LF_def)
  next
    case (Cons d s')
    then show ?thesis using Cons.IH Cons.prems by auto
  qed
qed

lemma split_join:
  assumes "segs \<noteq> []" and "\<forall>s \<in> set segs. LF \<notin> set s"
  shows "splitOn LF (replaceCRLF (joinWith [CR, LF] segs)) = segs"
  using assms
proof (induction "[CR, LF]" segs rule: joinWith.induct)
  case 1
  then show ?case by simp
next
  case (2 x)
  then show ?case by (simp add: replaceCRLF_noLF splitOn_noSep)
next
  case (3 x y ys)
  then have "splitOn LF (replaceCRLF (joinWith [CR, LF] (y # ys))) = y # ys" by simp
  then show ?case using 3(3) by (simp add: replaceCRLF_sep splitOn_sep)
qed


lemma unfoldStep_plain:
  "\<not> startsWith l '' '' \<Longrightarrow> \<not> startsWith l [TAB] \<Longrightarrow> unfoldStep acc l = acc @ [l]"
  by (simp add: unfoldStep_def)

lemma unfoldStep_continuation:
  "unfoldStep (acc @ [cur]) (CHR '' '' # chunk) = acc @ [cur @ chunk]"
  by (simp add: unfoldStep_def startsWith_def)

lemma unfold_chunks:
  "0 < idx \<Longrightarrow>
   foldl unfoldStep (acc @ [cur]) (foldChunks line idx) = acc @ [cur @ drop idx line]"
proof (induction line idx arbitrary: cur rule: foldChunks.induct)
  case (1 line idx)
  show ?case
  proof (cases "idx < length line")
    case True
    have "foldl unfoldStep (acc @ [cur]) (foldChunks line idx)
          = foldl unfoldStep (acc @ [cur @ take 75 (drop idx line)]) (foldChunks line (idx + 75))"
      using True "1.prems"
      by (simp add: foldChunks.simps [of line idx] Let_def unfoldStep_continuation)
    also have "\<dots> = acc @ [(cur @ take 75 (drop idx line)) @ drop (idx + 75) line]"
      using "1.IH" [OF True refl, of "cur @ take 75 (drop idx line)"] "1.prems" by simp
    finally have e: "foldl unfoldStep (acc @ [cur]) (foldChunks line idx)
          = acc @ [(cur @ take 75 (drop idx line)) @ drop (idx + 75) line]" .
    have "take 75 (drop idx line) @ drop (idx + 75) line = drop idx line"
      by (metis add.commute append_take_drop_id drop_drop)
    then show ?thesis using e by simp
  next
    case False
    then show ?thesis by (simp add: foldChunks.simps [of line idx])
  qed
qed

lemma unfold_foldLine:
  assumes "\<not> startsWith l '' ''" and "\<not> startsWith l [TAB]"
  shows "foldl unfoldStep acc (foldLine l) = acc @ [l]"
proof (cases "length l \<le> 75")
  case True
  then show ?thesis using assms by (simp add: foldLine_def unfoldStep_plain)
next
  case False
  then have len: "0 < length l" by (cases l) auto
  have t: "\<not> startsWith (take 75 l) '' ''" "\<not> startsWith (take 75 l) [TAB]"
    using assms len by (cases l; simp add: startsWith_def)+
  have "foldChunks l 0 = take 75 l # foldChunks l 75"
    using len by (simp add: foldChunks.simps [of l 0])
  then have "foldl unfoldStep acc (foldLine l)
        = foldl unfoldStep (acc @ [take 75 l]) (foldChunks l 75)"
    using False t by (simp add: foldLine_def unfoldStep_plain)
  also have "\<dots> = acc @ [take 75 l @ drop 75 l]" by (rule unfold_chunks) simp
  finally show ?thesis by simp
qed

lemma unfold_all:
  assumes "\<forall>l \<in> set ls. \<not> startsWith l '' '' \<and> \<not> startsWith l [TAB]"
  shows "foldl unfoldStep acc (concat (map foldLine ls)) = acc @ ls"
  using assms by (induction ls arbitrary: acc) (simp_all add: unfold_foldLine)

lemma foldChunks_noLF: "LF \<notin> set line \<Longrightarrow> \<forall>s \<in> set (foldChunks line idx). LF \<notin> set s"
proof (induction line idx rule: foldChunks.induct)
  case (1 line idx)
  show ?case
  proof (cases "idx < length line")
    case True
    have "LF \<notin> set (take 75 (drop idx line))"
      using "1.prems" by (meson in_set_dropD in_set_takeD)
    then show ?thesis
      using True "1.IH" [OF True refl] "1.prems"
      by (auto simp: foldChunks.simps [of line idx] Let_def LF_def)
  next
    case False
    then show ?thesis by (simp add: foldChunks.simps [of line idx])
  qed
qed

lemma foldLine_noLF: "LF \<notin> set l \<Longrightarrow> \<forall>s \<in> set (foldLine l). LF \<notin> set s"
  using foldChunks_noLF by (simp add: foldLine_def)

lemma foldLine_nonempty: "foldLine l \<noteq> []"
  by (simp add: foldLine_def foldChunks.simps [of l 0])

text \<open>
  Claim C8, as amended (folding and unfolding). The claim as stated,
  \<open>foldICSLines (unfoldICSLines x) = x\<close> for every document \<open>x\<close> whose logical lines
  hold no line ending, fails: the folder writes its own canonical text (CR LF between
  lines, a fold after every 75 characters and nowhere else), so a document folded
  elsewhere does not come back (\<open>C8_counterexample\<close>). What holds is the other direction,
  and with it the claim for the documents the folder writes: for a non-empty list of
  logical lines, none of which contains a line feed or starts with a space or a tab,
  unfolding the folded text gives back the lines, and folding the result of unfolding the
  folded text \<open>x\<close> reproduces \<open>x\<close>.
\<close>

theorem C8_unfold_inverts_fold:
  assumes "ls \<noteq> []"
    and "\<forall>l \<in> set ls. LF \<notin> set l \<and> \<not> startsWith l '' '' \<and> \<not> startsWith l [TAB]"
    and "x = foldICSLines ls"
  shows "unfoldICSLines x = ls \<and> foldICSLines (unfoldICSLines x) = x"
proof -
  let ?segs = "concat (map foldLine ls)"
  have ne: "?segs \<noteq> []" using assms(1) foldLine_nonempty by (cases ls) auto
  have nolf: "\<forall>s \<in> set ?segs. LF \<notin> set s" using assms(2) foldLine_noLF by auto
  have "splitOn LF (replaceCRLF x) = ?segs"
    unfolding assms(3) foldICSLines_def using ne nolf by (rule split_join)
  then have "unfoldICSLines x = foldl unfoldStep [] ?segs" by (simp add: unfoldICSLines_def)
  also have "\<dots> = [] @ ls" using assms(2) by (intro unfold_all) auto
  finally have "unfoldICSLines x = ls" by simp
  then show ?thesis using assms(3) by simp
qed

theorem C8_counterexample:
  "unfoldICSLines (''A'' @ [CR, LF] @ '' B'') = [''AB'']
   \<and> foldICSLines (unfoldICSLines (''A'' @ [CR, LF] @ '' B'')) = ''AB''
   \<and> foldICSLines (unfoldICSLines (''A'' @ [CR, LF] @ '' B'')) \<noteq> ''A'' @ [CR, LF] @ '' B''"
  by code_simp

theorem C8_witness:
  "foldICSLines [''BEGIN:VEVENT'', ''DESCRIPTION:0123456789012345678901234567890123456789012345678901234567890123456789'', ''END:VEVENT'']
     = ''BEGIN:VEVENT'' @ [CR, LF] @ ''DESCRIPTION:012345678901234567890123456789012345678901234567890123456789012'' @ [CR, LF] @ '' 3456789'' @ [CR, LF] @ ''END:VEVENT''
   \<and> unfoldICSLines (foldICSLines [''BEGIN:VEVENT'', ''DESCRIPTION:0123456789012345678901234567890123456789012345678901234567890123456789'', ''END:VEVENT''])
     = [''BEGIN:VEVENT'', ''DESCRIPTION:0123456789012345678901234567890123456789012345678901234567890123456789'', ''END:VEVENT'']
   \<and> foldICSLines (unfoldICSLines (foldICSLines [''BEGIN:VEVENT'', ''DESCRIPTION:0123456789012345678901234567890123456789012345678901234567890123456789'', ''END:VEVENT'']))
     = foldICSLines [''BEGIN:VEVENT'', ''DESCRIPTION:0123456789012345678901234567890123456789012345678901234567890123456789'', ''END:VEVENT'']"
proof -
  let ?ls = "[''BEGIN:VEVENT'', ''DESCRIPTION:0123456789012345678901234567890123456789012345678901234567890123456789'', ''END:VEVENT'']"
  have h1: "?ls \<noteq> []" by simp
  have h2: "\<forall>l \<in> set ?ls. LF \<notin> set l \<and> \<not> startsWith l '' '' \<and> \<not> startsWith l [TAB]"
    by (simp add: LF_def TAB_def startsWith_def)
  have f: "foldICSLines ?ls
     = ''BEGIN:VEVENT'' @ [CR, LF] @ ''DESCRIPTION:012345678901234567890123456789012345678901234567890123456789012'' @ [CR, LF] @ '' 3456789'' @ [CR, LF] @ ''END:VEVENT''"
    by code_simp
  show ?thesis
    using C8_unfold_inverts_fold [OF h1 h2 refl] f by simp
qed

section \<open>Event-block normalization on concrete documents\<close>

text \<open>
  Claim C5 (canonical field order, every occurrence of a repeated field kept in order).
  \<open>sortVEventFields\<close> keeps the canonical fields in a map from the field name to the
  lines of one occurrence, and \<open>fields.set\<close> replaces what an earlier occurrence stored
  (the lists \<open>xFields\<close> and \<open>otherFields\<close> are appended to instead). Of two
  \<open>ATTENDEE\<close> lines of an event only the last one is emitted: the first attendee is
  lost from the output of \<open>transformIcs\<close>.
\<close>

theorem C5_repeated_field_keeps_last_only:
  "sortVEventFields
     [''BEGIN:VEVENT'', ''UID:1'', ''ATTENDEE:mailto:a@example.com'',
      ''ATTENDEE:mailto:b@example.com'']
   = [''UID:1'', ''ATTENDEE:mailto:b@example.com'', ''BEGIN:VEVENT'']
   \<and> transformIcsLines env
     (''BEGIN:VCALENDAR'' @ [CR, LF] @ ''BEGIN:VEVENT'' @ [CR, LF] @ ''UID:1'' @ [CR, LF]
        @ ''ATTENDEE:mailto:a@example.com'' @ [CR, LF]
        @ ''ATTENDEE:mailto:b@example.com'' @ [CR, LF]
        @ ''END:VEVENT'' @ [CR, LF] @ ''END:VCALENDAR'')
     ''Europe/Zurich'' False
   = [''BEGIN:VCALENDAR''] @ vtimezoneBlock ''Europe/Zurich''
       @ [''UID:1'', ''ATTENDEE:mailto:b@example.com'', ''BEGIN:VEVENT'', ''END:VEVENT'',
          ''END:VCALENDAR'']"
  by code_simp

text \<open>
  Claim C6 (the open marker precedes the property lines of its block).
  \<open>fixVEventStructure\<close> starts the buffer of an event with the \<open>BEGIN:VEVENT\<close> line
  itself, so the normalizer receives the marker as a field named \<open>BEGIN\<close>, which is not
  a canonical field and is emitted after all canonical fields. The \<open>UID\<close> and
  \<open>SUMMARY\<close> lines of the event come out before its \<open>BEGIN:VEVENT\<close> line.
\<close>

theorem C6_begin_marker_after_canonical_fields:
  "fixVEventStructure [''BEGIN:VEVENT'', ''UID:1'', ''SUMMARY:x'', ''END:VEVENT'']
   = [''UID:1'', ''SUMMARY:x'', ''BEGIN:VEVENT'', ''END:VEVENT'']
   \<and> transformIcsLines env
     (''BEGIN:VCALENDAR'' @ [CR, LF] @ ''BEGIN:VEVENT'' @ [CR, LF] @ ''UID:1'' @ [CR, LF]
        @ ''SUMMARY:x'' @ [CR, LF] @ ''END:VEVENT'' @ [CR, LF] @ ''END:VCALENDAR'')
     ''Europe/Zurich'' False
   = [''BEGIN:VCALENDAR''] @ vtimezoneBlock ''Europe/Zurich''
       @ [''UID:1'', ''SUMMARY:x'', ''BEGIN:VEVENT'', ''END:VEVENT'', ''END:VCALENDAR'']"
  by code_simp

section \<open>The rewriter on concrete lines\<close>

text \<open>
  Claim C4 (a line that carries \<open>VALUE=DATE\<close> among its parameters is emitted
  unchanged). The pattern of \<open>isAllDay\<close> asks for \<open>VALUE=DATE\<close> immediately before the
  colon, so an all-day line with a further parameter after \<open>VALUE=DATE\<close> is not
  recognised; it is taken for a floating date-time and a \<open>TZID\<close> parameter is attached to
  it, in \<open>transformDateTimeLine\<close> and in the output of \<open>transformIcs\<close>.
\<close>

theorem C4_value_date_before_other_parameter_gets_tzid:
  "\<not> isAllDay ''DTSTART;VALUE=DATE;X-FOO=1:20240101''
   \<and> transformDateTimeLine env ''DTSTART;VALUE=DATE;X-FOO=1:20240101''
       \<lparr> targetTz = ''Europe/Zurich'', overrideExistingTz = False \<rparr>
     = ''DTSTART;TZID=Europe/Zurich;VALUE=DATE;X-FOO=1:20240101''
   \<and> transformIcsLines env
     (''BEGIN:VCALENDAR'' @ [CR, LF] @ ''BEGIN:VEVENT'' @ [CR, LF]
        @ ''DTSTART;VALUE=DATE;X-FOO=1:20240101'' @ [CR, LF]
        @ ''END:VEVENT'' @ [CR, LF] @ ''END:VCALENDAR'')
     ''Europe/Zurich'' False
   = [''BEGIN:VCALENDAR''] @ vtimezoneBlock ''Europe/Zurich''
       @ [''DTSTART;TZID=Europe/Zurich;VALUE=DATE;X-FOO=1:20240101'', ''BEGIN:VEVENT'',
          ''END:VEVENT'', ''END:VCALENDAR'']"
  by code_simp

text \<open>
  Claim C3 (a floating value is returned byte-identical, only \<open>TZID\<close> is attached).
  The floating branch emits \<open>dtBasic\<close>, which is the value with its first \<open>Z\<close> removed
  (\<open>value.replace("Z", "")\<close>), not the value. A value that does not end with \<open>Z\<close> but
  contains one loses it: the line below has no trailing \<open>Z\<close> and no \<open>TZID\<close>, and the
  UTC date-time of its list comes out as a wall-clock time of the target zone.
\<close>

theorem C3_floating_value_loses_inner_Z:
  "\<not> endsWith ''20240101T120000Z,20240102T120000'' ''Z''
   \<and> matchDateTimeLine ''EXDATE:20240101T120000Z,20240102T120000''
     = Some (''EXDATE'', None, ''20240101T120000Z,20240102T120000'')
   \<and> transformDateTimeLine env ''EXDATE:20240101T120000Z,20240102T120000''
       \<lparr> targetTz = ''Europe/Zurich'', overrideExistingTz = False \<rparr>
     = ''EXDATE;TZID=Europe/Zurich:20240101T120000,20240102T120000''"
  by code_simp


section \<open>The whole transform on date-time lines of concrete documents\<close>

text \<open>
  Claim C1 (\<open>transformIcs\<close> emits a UTC date-time line converted to the target zone).
  The document below declares the target zone, so no timezone definition is inserted, and
  its event has two \<open>EXDATE\<close> lines with one UTC date-time each. The rewriter converts
  both (the first one to \<open>EXDATE;TZID=Europe/Zurich:20240108T130000\<close>, as the claim
  says), but the event normalizer keeps one occurrence of a canonical field only
  (\<open>fields.set\<close> replaces the earlier one): the converted first \<open>EXDATE\<close> line is not
  in the text that \<open>transformIcs\<close> returns, neither converted nor as it was. The zone
  \<open>Europe/Zurich\<close> is one hour ahead of UTC here.
\<close>

theorem C1_converted_line_missing_from_output:
  "transformDateTimeLine
     \<lparr> zoneOffset = (\<lambda>z. if z = ''Europe/Zurich'' then Some (\<lambda>ts. 3600) else None), nowTs = 0 \<rparr>
     ''EXDATE:20240108T120000Z''
     \<lparr> targetTz = ''Europe/Zurich'', overrideExistingTz = False \<rparr>
   = ''EXDATE;TZID=Europe/Zurich:20240108T130000''
   \<and> transformIcs
     \<lparr> zoneOffset = (\<lambda>z. if z = ''Europe/Zurich'' then Some (\<lambda>ts. 3600) else None), nowTs = 0 \<rparr>
     (''BEGIN:VCALENDAR'' @ [CR, LF] @ ''BEGIN:VTIMEZONE'' @ [CR, LF]
        @ ''TZID:Europe/Zurich'' @ [CR, LF] @ ''END:VTIMEZONE'' @ [CR, LF]
        @ ''BEGIN:VEVENT'' @ [CR, LF] @ ''UID:1'' @ [CR, LF]
        @ ''DTSTART:20240101T120000Z'' @ [CR, LF]
        @ ''EXDATE:20240108T120000Z'' @ [CR, LF]
        @ ''EXDATE:20240115T120000Z'' @ [CR, LF]
        @ ''END:VEVENT'' @ [CR, LF] @ ''END:VCALENDAR'' @ [CR, LF])
     ''Europe/Zurich'' False
   = ''BEGIN:VCALENDAR'' @ [CR, LF] @ ''BEGIN:VTIMEZONE'' @ [CR, LF]
       @ ''TZID:Europe/Zurich'' @ [CR, LF] @ ''END:VTIMEZONE'' @ [CR, LF]
       @ ''UID:1'' @ [CR, LF]
       @ ''DTSTART;TZID=Europe/Zurich:20240101T130000'' @ [CR, LF]
       @ ''EXDATE;TZID=Europe/Zurich:20240115T130000'' @ [CR, LF]
       @ ''BEGIN:VEVENT'' @ [CR, LF] @ ''END:VEVENT'' @ [CR, LF]
       @ ''END:VCALENDAR'' @ [CR, LF] @ [CR, LF]"
  by code_simp

text \<open>
  Claim C2 (a line whose date-time does not parse appears in the output unchanged). The
  first \<open>EXDATE\<close> line of the event below names 30 February: the rewriter returns it as
  it is, but it is followed by another \<open>EXDATE\<close> line, and the event normalizer keeps
  the last occurrence of a canonical field only, so the line is not in the text that
  \<open>transformIcs\<close> returns. Besides, the text that the rewriter parses is the value
  without its first \<open>Z\<close>, wherever that \<open>Z\<close> stands: the value
  \<open>20240101TZ120000\<close> of a line with an existing \<open>TZID\<close> is no date-time, yet with
  the override enabled the line is rewritten. Both zones are one hour ahead of UTC here.
\<close>

theorem C2_unparsable_line_missing_from_output:
  "transformDateTimeLine
     \<lparr> zoneOffset = (\<lambda>z. if z = ''Europe/Zurich'' \<or> z = ''Europe/Berlin'' then Some (\<lambda>ts. 3600) else None),
       nowTs = 0 \<rparr>
     ''EXDATE:20240230T120000Z''
     \<lparr> targetTz = ''Europe/Zurich'', overrideExistingTz = True \<rparr>
   = ''EXDATE:20240230T120000Z''
   \<and> transformIcs
     \<lparr> zoneOffset = (\<lambda>z. if z = ''Europe/Zurich'' \<or> z = ''Europe/Berlin'' then Some (\<lambda>ts. 3600) else None),
       nowTs = 0 \<rparr>
     (''BEGIN:VCALENDAR'' @ [CR, LF] @ ''BEGIN:VTIMEZONE'' @ [CR, LF]
        @ ''TZID:Europe/Zurich'' @ [CR, LF] @ ''END:VTIMEZONE'' @ [CR, LF]
        @ ''BEGIN:VEVENT'' @ [CR, LF] @ ''UID:1'' @ [CR, LF]
        @ ''EXDATE:20240230T120000Z'' @ [CR, LF]
        @ ''EXDATE:20240301T120000Z'' @ [CR, LF]
        @ ''END:VEVENT'' @ [CR, LF] @ ''END:VCALENDAR'' @ [CR, LF])
     ''Europe/Zurich'' True
   = ''BEGIN:VCALENDAR'' @ [CR, LF] @ ''BEGIN:VTIMEZONE'' @ [CR, LF]
       @ ''TZID:Europe/Zurich'' @ [CR, LF] @ ''END:VTIMEZONE'' @ [CR, LF]
       @ ''UID:1'' @ [CR, LF]
       @ ''EXDATE;TZID=Europe/Zurich:20240301T130000'' @ [CR, LF]
       @ ''BEGIN:VEVENT'' @ [CR, LF] @ ''END:VEVENT'' @ [CR, LF]
       @ ''END:VCALENDAR'' @ [CR, LF] @ [CR, LF]
   \<and> transformDateTimeLine
     \<lparr> zoneOffset = (\<lambda>z. if z = ''Europe/Zurich'' \<or> z = ''Europe/Berlin'' then Some (\<lambda>ts. 3600) else None),
       nowTs = 0 \<rparr>
     ''DTSTART;TZID=Europe/Berlin:20240101TZ120000''
     \<lparr> targetTz = ''Europe/Zurich'', overrideExistingTz = True \<rparr>
   = ''DTSTART;TZID=Europe/Zurich:20240101T120000''"
  by code_simp

text \<open>
  Claim C10 (an \<open>EXDATE\<close> line with a list of UTC date-times is left unchanged by
  \<open>transformIcs\<close>). The rewriter returns each of the two \<open>EXDATE\<close> lines of the event
  below as it is, since a list is no date-time, and converts the \<open>DTSTART\<close> line; but
  the event normalizer keeps the last occurrence of a canonical field only, so the first
  list of exclusion dates is not in the text that \<open>transformIcs\<close> returns.
\<close>

theorem C10_multi_valued_exdate_missing_from_output:
  "transformDateTimeLine
     \<lparr> zoneOffset = (\<lambda>z. if z = ''Europe/Zurich'' then Some (\<lambda>ts. 3600) else None), nowTs = 0 \<rparr>
     ''EXDATE:20240108T120000Z,20240115T120000Z''
     \<lparr> targetTz = ''Europe/Zurich'', overrideExistingTz = False \<rparr>
   = ''EXDATE:20240108T120000Z,20240115T120000Z''
   \<and> transformIcs
     \<lparr> zoneOffset = (\<lambda>z. if z = ''Europe/Zurich'' then Some (\<lambda>ts. 3600) else None), nowTs = 0 \<rparr>
     (''BEGIN:VCALENDAR'' @ [CR, LF] @ ''BEGIN:VTIMEZONE'' @ [CR, LF]
        @ ''TZID:Europe/Zurich'' @ [CR, LF] @ ''END:VTIMEZONE'' @ [CR, LF]
        @ ''BEGIN:VEVENT'' @ [CR, LF] @ ''UID:1'' @ [CR, LF]
        @ ''DTSTART:20240101T120000Z'' @ [CR, LF]
        @ ''EXDATE:20240108T120000Z,20240115T120000Z'' @ [CR, LF]
        @ ''EXDATE:20240122T120000Z,20240129T120000Z'' @ [CR, LF]
        @ ''END:VEVENT'' @ [CR, LF] @ ''END:VCALENDAR'' @ [CR, LF])
     ''Europe/Zurich'' False
   = ''BEGIN:VCALENDAR'' @ [CR, LF] @ ''BEGIN:VTIMEZONE'' @ [CR, LF]
       @ ''TZID:Europe/Zurich'' @ [CR, LF] @ ''END:VTIMEZONE'' @ [CR, LF]
       @ ''UID:1'' @ [CR, LF]
       @ ''DTSTART;TZID=Europe/Zurich:20240101T130000'' @ [CR, LF]
       @ ''EXDATE:20240122T120000Z,20240129T120000Z'' @ [CR, LF]
       @ ''BEGIN:VEVENT'' @ [CR, LF] @ ''END:VEVENT'' @ [CR, LF]
       @ ''END:VCALENDAR'' @ [CR, LF] @ [CR, LF]"
  by code_simp

section \<open>The timezone definition in concrete documents\<close>

text \<open>
  Claim C7 (the synthesized timezone definition replaces the first \<open>VTIMEZONE\<close> block,
  or is inserted immediately before the first \<open>BEGIN:VEVENT\<close> line, unless the target
  zone is already declared). Three documents on which \<open>transformIcs\<close> does otherwise.
  First, a line counts as declaring the target zone when it starts with \<open>TZID:\<close> and
  contains the zone's name anywhere (\<open>l.includes(targetTz)\<close>): the block of
  \<open>Etc/GMT+10\<close> is taken for a declaration of the target zone \<open>Etc/GMT+1\<close>, and the
  document keeps the block of the other zone and gets none for the target zone. Second,
  when a \<open>BEGIN:VTIMEZONE\<close> line has no \<open>END:VTIMEZONE\<close> line after it, there is no
  block to replace and the code has no other branch: nothing is inserted before the
  event. Third, when the definition is inserted before the \<open>BEGIN:VEVENT\<close> line, the
  event normalizer then moves that line behind the canonical fields of its event, so in
  the text returned the definition is followed by the \<open>UID\<close> line of the event, not by
  \<open>BEGIN:VEVENT\<close>.
\<close>

theorem C7_timezone_definition_not_integrated:
  "transformIcs env
     (''BEGIN:VCALENDAR'' @ [CR, LF] @ ''BEGIN:VTIMEZONE'' @ [CR, LF]
        @ ''TZID:Etc/GMT+10'' @ [CR, LF] @ ''END:VTIMEZONE'' @ [CR, LF]
        @ ''BEGIN:VEVENT'' @ [CR, LF] @ ''UID:1'' @ [CR, LF]
        @ ''END:VEVENT'' @ [CR, LF] @ ''END:VCALENDAR'' @ [CR, LF])
     ''Etc/GMT+1'' False
   = ''BEGIN:VCALENDAR'' @ [CR, LF] @ ''BEGIN:VTIMEZONE'' @ [CR, LF]
       @ ''TZID:Etc/GMT+10'' @ [CR, LF] @ ''END:VTIMEZONE'' @ [CR, LF]
       @ ''UID:1'' @ [CR, LF] @ ''BEGIN:VEVENT'' @ [CR, LF]
       @ ''END:VEVENT'' @ [CR, LF] @ ''END:VCALENDAR'' @ [CR, LF] @ [CR, LF]
   \<and> transformIcs env
     (''BEGIN:VCALENDAR'' @ [CR, LF] @ ''BEGIN:VTIMEZONE'' @ [CR, LF]
        @ ''TZID:Europe/Berlin'' @ [CR, LF]
        @ ''BEGIN:VEVENT'' @ [CR, LF] @ ''UID:1'' @ [CR, LF]
        @ ''END:VEVENT'' @ [CR, LF] @ ''END:VCALENDAR'' @ [CR, LF])
     ''Europe/Zurich'' False
   = ''BEGIN:VCALENDAR'' @ [CR, LF] @ ''BEGIN:VTIMEZONE'' @ [CR, LF]
       @ ''TZID:Europe/Berlin'' @ [CR, LF]
       @ ''UID:1'' @ [CR, LF] @ ''BEGIN:VEVENT'' @ [CR, LF]
       @ ''END:VEVENT'' @ [CR, LF] @ ''END:VCALENDAR'' @ [CR, LF] @ [CR, LF]
   \<and> transformIcsLines env
     (''BEGIN:VCALENDAR'' @ [CR, LF] @ ''BEGIN:VEVENT'' @ [CR, LF] @ ''UID:1'' @ [CR, LF]
        @ ''END:VEVENT'' @ [CR, LF] @ ''END:VCALENDAR'' @ [CR, LF])
     ''Europe/Zurich'' False
   = [''BEGIN:VCALENDAR''] @ vtimezoneBlock ''Europe/Zurich''
       @ [''UID:1'', ''BEGIN:VEVENT'', ''END:VEVENT'', ''END:VCALENDAR'', '''']"
  by code_simp

section \<open>What the rewriting pass does with the lines it is given\<close>

text \<open>
  The rewriting pass on a UTC date-time line. Let a line of the unfolded document,
  outside a \<open>VTIMEZONE\<close> block as the rewriting pass tracks it, be a name among
  \<open>DTSTART\<close>, \<open>DTEND\<close>, \<open>RECURRENCE-ID\<close>, \<open>EXDATE\<close> (in any case), optional
  parameters, a colon, and a text \<open>digits\<close> followed by \<open>Z\<close>, where \<open>digits\<close> is a
  valid date-time in one of the two formats (\<open>hs\<close> tells which) with a capital \<open>T\<close>,
  and let the line not be an all-day line. If the target zone is known with offset
  function \<open>offset\<close>, the rewriting pass puts at the position of the line: the name, the
  parameter \<open>TZID=<zone>\<close> first, the other parameters, a colon, and the reading of the
  UTC instant on the zone's wall clock (the instant shifted by the zone's offset at that
  instant), printed in the format of the input: it has no trailing \<open>Z\<close> and it has
  seconds exactly when the input had. This is the list that the integration of the
  timezone definition and the event normalizer work on afterwards.
\<close>

theorem utc_line_converted_by_rewriting_pass:
  assumes "ciUpper name \<in> set dtProps"
    and "case params of None \<Rightarrow> True
         | Some s \<Rightarrow> \<exists>p. s = CHR '';'' # p \<and> p \<noteq> [] \<and> CHR '':'' \<notin> set p"
    and "line = name @ (case params of None \<Rightarrow> [] | Some s \<Rightarrow> s) @ '':'' @ digits @ ''Z''"
    and "\<not> isAllDay line"
    and "matchFormat hs digits = Some d" and "validObj d" and "digits ! 8 = CHR ''T''"
    and "normalizeZone env tz = Some offset"
    and "unfoldICSLines ics = pre @ line # post"
    and "\<not> insideVTimezoneAfter False pre"
    and "out = formatObj hs (tsToObj (objToLocalTS d) (offset (objToLocalTS d)))"
  shows "transformLines env \<lparr> targetTz = tz, overrideExistingTz = override \<rparr> False
           (unfoldICSLines ics) ! length pre
         = name @ '';TZID='' @ tz
             @ concat (map (\<lambda>kv. '';'' @ kv)
                 (filter (\<lambda>kv. \<not> isTzidParam kv) (paramParts params)))
             @ '':'' @ out
       \<and> \<not> endsWith out ''Z''
       \<and> hasSecondsOf out = hs"
proof -
  let ?opts = "\<lparr> targetTz = tz, overrideExistingTz = override \<rparr>"
  let ?rest = "(case params of None \<Rightarrow> [] | Some s \<Rightarrow> s) @ '':'' @ digits @ ''Z''"
  have one: "transformDateTimeLine env line ?opts
     = name @ buildParams params (''TZID='' @ targetTz ?opts) @ '':''
         @ setZoneToFormat env (objToLocalTS d) (targetTz ?opts) hs"
    using assms(1-7) by (rule transformDateTimeLine_utc)
  have ln: "line = name @ ?rest" using assms(3) .
  have "transformLines env ?opts False (pre @ line # post)
        = transformLines env ?opts False pre
            @ transformDateTimeLine env line ?opts # transformLines env ?opts False post"
    using assms(10) transformLines_dt_line [OF assms(1), of False env ?opts ?rest post]
    by (simp add: transformLines_append ln)
  then have "transformLines env ?opts False (unfoldICSLines ics) ! length pre
             = transformDateTimeLine env line ?opts"
    using assms(9) by (simp add: nth_append)
  then have "transformLines env ?opts False (unfoldICSLines ics) ! length pre
         = name @ '';TZID='' @ tz
             @ concat (map (\<lambda>kv. '';'' @ kv)
                 (filter (\<lambda>kv. \<not> isTzidParam kv) (paramParts params)))
             @ '':'' @ out"
    using one assms(8,11) by (simp add: buildParams_text setZoneToFormat_def)
  moreover have "\<not> endsWith out ''Z''" unfolding assms(11) by (rule formatObj_no_trailing_Z)
  moreover have "hasSecondsOf out = hs" unfolding assms(11) by (rule formatObj_hasSeconds)
  ultimately show ?thesis by blast
qed

theorem utc_line_converted_by_rewriting_pass_witness:
  "transformLines
     \<lparr> zoneOffset = (\<lambda>z. if z = ''Europe/Zurich'' then Some (\<lambda>ts. 3600) else None), nowTs = 0 \<rparr>
     \<lparr> targetTz = ''Europe/Zurich'', overrideExistingTz = False \<rparr> False
     (unfoldICSLines (''BEGIN:VEVENT'' @ [CR, LF] @ ''DTSTART:20240101T120000Z'' @ [CR, LF] @ ''END:VEVENT''))
     ! 1
   = ''DTSTART;TZID=Europe/Zurich:20240101T130000''
   \<and> \<not> endsWith ''20240101T130000'' ''Z'' \<and> hasSecondsOf ''20240101T130000''"
proof -
  let ?env = "\<lparr> zoneOffset = (\<lambda>z. if z = ''Europe/Zurich'' then Some (\<lambda>ts. 3600) else None), nowTs = 0 \<rparr>"
  let ?d = "\<lparr> year = 2024, month = 1, day = 1, hour = 12, minute = 0, second = 0 \<rparr>"
  have h1: "ciUpper ''DTSTART'' \<in> set dtProps" by code_simp
  have h2: "case None :: string option of None \<Rightarrow> True
         | Some s \<Rightarrow> \<exists>p. s = CHR '';'' # p \<and> p \<noteq> [] \<and> CHR '':'' \<notin> set p" by simp
  have h3: "''DTSTART:20240101T120000Z''
     = ''DTSTART'' @ (case None :: string option of None \<Rightarrow> [] | Some s \<Rightarrow> s) @ '':'' @ ''20240101T120000'' @ ''Z''"
    by simp
  have h4: "\<not> isAllDay ''DTSTART:20240101T120000Z''" by code_simp
  have h5: "matchFormat True ''20240101T120000'' = Some ?d" by code_simp
  have h6: "validObj ?d" by code_simp
  have h7: "''20240101T120000'' ! 8 = CHR ''T''" by code_simp
  have h8: "normalizeZone ?env ''Europe/Zurich'' = Some (\<lambda>ts. 3600)"
    by (simp add: normalizeZone_def upperChar_def)
  have h9: "unfoldICSLines (''BEGIN:VEVENT'' @ [CR, LF] @ ''DTSTART:20240101T120000Z'' @ [CR, LF] @ ''END:VEVENT'')
     = [''BEGIN:VEVENT''] @ ''DTSTART:20240101T120000Z'' # [''END:VEVENT'']" by code_simp
  have h10: "\<not> insideVTimezoneAfter False [''BEGIN:VEVENT'']" by code_simp
  have h11: "''20240101T130000'' = formatObj True (tsToObj (objToLocalTS ?d) ((\<lambda>ts. 3600) (objToLocalTS ?d)))"
    by code_simp
  show ?thesis
    using utc_line_converted_by_rewriting_pass [OF h1 h2 h3 h4 h5 h6 h7 h8 h9 h10 h11, of False]
    by (simp add: paramParts_def)
qed

lemma transformLines_nth_cases:
  "i < length ls \<Longrightarrow>
     transformLines env opts b ls ! i = ls ! i
     \<or> transformLines env opts b ls ! i = transformDateTimeLine env (ls ! i) opts"
proof (induction ls arbitrary: b i)
  case Nil
  then show ?case by simp
next
  case (Cons l ls)
  show ?case
  proof (cases i)
    case 0
    then show ?thesis by (simp add: Let_def)
  next
    case (Suc j)
    then have "j < length ls" using Cons.prems by simp
    then show ?thesis using Cons.IH [of j] Suc by (simp add: Let_def)
  qed
qed

lemma fromFormat_unparsable:
  assumes "case matchFormat hs s of None \<Rightarrow> True | Some d \<Rightarrow> \<not> validObj d"
  shows "fromFormat env s hs zone = None"
  using assms by (auto simp: fromFormat_def split: option.splits)

lemma transformDateTimeLine_unparsable:
  assumes "matchDateTimeLine line = Some (name, params, v)"
    and "endsWith v ''Z'' \<or> extractExistingTzid params \<noteq> None"
    and "case matchFormat (hasSecondsOf (remove1 (CHR ''Z'') v)) (remove1 (CHR ''Z'') v) of
           None \<Rightarrow> True | Some d \<Rightarrow> \<not> validObj d"
  shows "transformDateTimeLine env line opts = line"
  using assms(2) fromFormat_unparsable [OF assms(3)]
  by (auto simp: transformDateTimeLine_def assms(1) Let_def split: option.splits)


text \<open>
  The rewriting pass on a line whose date-time does not parse. For a line that the
  rewriter's pattern matches, whose value ends with \<open>Z\<close> or whose parameters hold an
  existing \<open>TZID\<close>, and whose value without its first \<open>Z\<close> is rejected by the
  parser in the format the rewriter selects for it, \<open>transformDateTimeLine\<close> returns
  the line and the rewriting pass emits the line, byte for byte, at the same position; the
  pass keeps the number of lines.
\<close>

theorem unparsable_line_unchanged_by_rewriting_pass:
  assumes "i < length ls"
    and "matchDateTimeLine (ls ! i) = Some (name, params, v)"
    and "endsWith v ''Z'' \<or> extractExistingTzid params \<noteq> None"
    and "case matchFormat (hasSecondsOf (remove1 (CHR ''Z'') v)) (remove1 (CHR ''Z'') v) of
           None \<Rightarrow> True | Some d \<Rightarrow> \<not> validObj d"
  shows "transformDateTimeLine env (ls ! i) opts = ls ! i
       \<and> transformLines env opts inside ls ! i = ls ! i
       \<and> length (transformLines env opts inside ls) = length ls"
proof -
  have one: "transformDateTimeLine env (ls ! i) opts = ls ! i"
    using assms(2-4) by (rule transformDateTimeLine_unparsable)
  moreover have "transformLines env opts inside ls ! i = ls ! i"
    using transformLines_nth_cases [OF assms(1), of env opts inside] one by auto
  ultimately show ?thesis by simp
qed

theorem unparsable_line_unchanged_by_rewriting_pass_witness:
  "transformDateTimeLine \<lparr> zoneOffset = (\<lambda>z. None), nowTs = 0 \<rparr> ''DTSTART:20240230T120000Z''
      \<lparr> targetTz = ''Europe/Zurich'', overrideExistingTz = True \<rparr>
     = ''DTSTART:20240230T120000Z''
   \<and> transformLines \<lparr> zoneOffset = (\<lambda>z. None), nowTs = 0 \<rparr> \<lparr> targetTz = ''Europe/Zurich'', overrideExistingTz = True \<rparr> False
        [''BEGIN:VEVENT'', ''DTSTART:20240230T120000Z'',
         ''DTEND;TZID=Europe/Berlin:2024-03-01'', ''END:VEVENT''] ! 1
     = ''DTSTART:20240230T120000Z''
   \<and> transformLines \<lparr> zoneOffset = (\<lambda>z. None), nowTs = 0 \<rparr> \<lparr> targetTz = ''Europe/Zurich'', overrideExistingTz = True \<rparr> False
        [''BEGIN:VEVENT'', ''DTSTART:20240230T120000Z'',
         ''DTEND;TZID=Europe/Berlin:2024-03-01'', ''END:VEVENT''] ! 2
     = ''DTEND;TZID=Europe/Berlin:2024-03-01''"
proof -
  let ?ls = "[''BEGIN:VEVENT'', ''DTSTART:20240230T120000Z'',
         ''DTEND;TZID=Europe/Berlin:2024-03-01'', ''END:VEVENT'']"
  have a1: "1 < length ?ls" by simp
  have a2: "matchDateTimeLine (?ls ! 1) = Some (''DTSTART'', None, ''20240230T120000Z'')"
    by code_simp
  have a3: "endsWith ''20240230T120000Z'' ''Z'' \<or> extractExistingTzid None \<noteq> None"
    by code_simp
  have a4: "case matchFormat (hasSecondsOf (remove1 (CHR ''Z'') ''20240230T120000Z''))
                  (remove1 (CHR ''Z'') ''20240230T120000Z'') of
           None \<Rightarrow> True | Some d \<Rightarrow> \<not> validObj d"
    by code_simp
  have b1: "2 < length ?ls" by simp
  have b2: "matchDateTimeLine (?ls ! 2)
            = Some (''DTEND'', Some '';TZID=Europe/Berlin'', ''2024-03-01'')"
    by code_simp
  have b3: "endsWith ''2024-03-01'' ''Z'' \<or> extractExistingTzid (Some '';TZID=Europe/Berlin'') \<noteq> None"
    by code_simp
  have b4: "case matchFormat (hasSecondsOf (remove1 (CHR ''Z'') ''2024-03-01''))
                  (remove1 (CHR ''Z'') ''2024-03-01'') of
           None \<Rightarrow> True | Some d \<Rightarrow> \<not> validObj d"
    by code_simp
  show ?thesis
    using unparsable_line_unchanged_by_rewriting_pass [OF a1 a2 a3 a4,
        of "\<lparr> zoneOffset = (\<lambda>z. None), nowTs = 0 \<rparr>" "\<lparr> targetTz = ''Europe/Zurich'', overrideExistingTz = True \<rparr>" False]
      unparsable_line_unchanged_by_rewriting_pass [OF b1 b2 b3 b4,
        of "\<lparr> zoneOffset = (\<lambda>z. None), nowTs = 0 \<rparr>" "\<lparr> targetTz = ''Europe/Zurich'', overrideExistingTz = True \<rparr>" False]
    by simp
qed

lemma joinWith_comma_mem:
  assumes "2 \<le> length ds"
  shows "CHR '','' \<in> set (joinWith '','' ds)"
proof -
  obtain x xs where a: "ds = x # xs" using assms by (cases ds) auto
  then obtain y ys where "xs = y # ys" using assms by (cases xs) auto
  then show ?thesis using a by simp
qed

lemma joinWith_last_suffix:
  "ds \<noteq> [] \<Longrightarrow> suffix (last ds) (joinWith sep ds)"
proof (induction sep ds rule: joinWith.induct)
  case (3 sep x y ys)
  then have "suffix (last (y # ys)) (joinWith sep (y # ys))" by simp
  then show ?case by (auto simp: suffix_def)
qed simp_all

lemma matchFormat_no_comma:
  "CHR '','' \<in> set s \<Longrightarrow> matchFormat hs s = None"
proof (rule ccontr)
  assume c: "CHR '','' \<in> set s" and "matchFormat hs s \<noteq> None"
  then obtain d where "matchFormat hs s = Some d" by auto
  then have "list_all basicChar s" by (rule matchFormat_chars)
  then show False using c basicChar_props by (auto simp: list_all_iff)
qed

lemma comma_in_remove1: "CHR '','' \<in> set v \<Longrightarrow> CHR '','' \<in> set (remove1 (CHR ''Z'') v)"
  by (induction v) auto

lemma transformDateTimeLine_comma:
  assumes "matchDateTimeLine line = Some (name, params, v)"
    and "CHR '','' \<in> set v"
    and "endsWith v ''Z'' \<or> extractExistingTzid params \<noteq> None"
  shows "transformDateTimeLine env line opts = line"
proof -
  have "matchFormat (hasSecondsOf (remove1 (CHR ''Z'') v)) (remove1 (CHR ''Z'') v) = None"
    using comma_in_remove1 [OF assms(2)] by (rule matchFormat_no_comma)
  then show ?thesis
    using transformDateTimeLine_unparsable [OF assms(1,3)] by simp
qed

lemma matchRest_value:
  assumes "case params of None \<Rightarrow> True
           | Some s \<Rightarrow> \<exists>p. s = CHR '';'' # p \<and> p \<noteq> [] \<and> CHR '':'' \<notin> set p"
    and "v \<noteq> []"
  shows "matchRest ((case params of None \<Rightarrow> [] | Some s \<Rightarrow> s) @ '':'' @ v)
         = (if list_all isValueChar v then Some (params, v) else None)"
proof (cases params)
  case None
  then show ?thesis using assms(2) by (simp add: matchRest_def)
next
  case (Some s)
  with assms(1) obtain p where p: "s = CHR '';'' # p" "p \<noteq> []" "CHR '':'' \<notin> set p" by auto
  have tw: "takeWhile notColon (p @ CHR '':'' # v) = p"
    by (rule takeWhile_stop) (use p(3) in \<open>auto simp: notColon_def list_all_iff\<close>)
  show ?thesis using Some p assms(2) by (simp add: matchRest_def tw Let_def)
qed

lemma matchLineWith_None:
  assumes "\<forall>p \<in> set ps. ciPrefix p line \<longrightarrow> matchRest (drop (length p) line) = None"
  shows "matchLineWith ps line = None"
  using assms by (induction ps) auto

lemma matchDateTimeLine_rest_None:
  assumes "ciUpper name \<in> set dtProps" and "matchRest rest = None"
  shows "matchDateTimeLine (name @ rest) = None"
proof -
  have len: "length name = length (ciUpper name)" by simp
  from assms(1) consider "ciUpper name = ''DTSTART''" | "ciUpper name = ''DTEND''"
    | "ciUpper name = ''RECURRENCE-ID''" | "ciUpper name = ''EXDATE''"
    by (auto simp: dtProps_def)
  then show ?thesis
  proof cases
    case 1
    then have "length name = 7" using len by simp
    with 1 assms(2) show ?thesis
      by (simp add: matchDateTimeLine_def dtProps_def ciPrefix_def)
  next
    case 2
    then have "length name = 5" using len by simp
    with 2 assms(2) show ?thesis
      by (simp add: matchDateTimeLine_def dtProps_def ciPrefix_def)
  next
    case 3
    then have "length name = 13" using len by simp
    with 3 assms(2) show ?thesis
      by (simp add: matchDateTimeLine_def dtProps_def ciPrefix_def)
  next
    case 4
    then have "length name = 6" using len by simp
    with 4 assms(2) show ?thesis
      by (simp add: matchDateTimeLine_def dtProps_def ciPrefix_def)
  qed
qed


text \<open>
  The rewriting pass on an \<open>EXDATE\<close> line with a list of date-times. Let a line be the
  name \<open>EXDATE\<close> (in any case), optional parameters, a colon and two or more texts
  joined by commas, where every text ends with \<open>Z\<close>, or the parameters hold an
  existing \<open>TZID\<close> and overriding is enabled. Then \<open>transformDateTimeLine\<close> returns
  the line unchanged, and so does the rewriting pass at the line's position, whatever
  the flag: the comma keeps the whole value from parsing as one date-time, so the
  fail-safe path is taken, also when each text of the list is a valid date-time.
\<close>

theorem multi_valued_exdate_unchanged_by_rewriting_pass:
  assumes "ciUpper name = ''EXDATE''"
    and "case params of None \<Rightarrow> True
         | Some s \<Rightarrow> \<exists>p. s = CHR '';'' # p \<and> p \<noteq> [] \<and> CHR '':'' \<notin> set p"
    and "2 \<le> length ds"
    and "line = name @ (case params of None \<Rightarrow> [] | Some s \<Rightarrow> s) @ '':'' @ joinWith '','' ds"
    and "list_all (\<lambda>d. endsWith d ''Z'') ds
         \<or> (extractExistingTzid params \<noteq> None \<and> overrideExistingTz opts)"
    and "i < length ls" and "ls ! i = line"
  shows "transformDateTimeLine env line opts = line
       \<and> transformLines env opts inside ls ! i = line"
proof -
  let ?v = "joinWith '','' ds"
  have nm: "ciUpper name \<in> set dtProps" using assms(1) by (simp add: dtProps_def)
  have comma: "CHR '','' \<in> set ?v" using assms(3) by (rule joinWith_comma_mem)
  then have ne: "?v \<noteq> []" by auto
  have ds: "ds \<noteq> []" using assms(3) by auto
  have br: "endsWith ?v ''Z'' \<or> extractExistingTzid params \<noteq> None"
  proof (cases "list_all (\<lambda>d. endsWith d ''Z'') ds")
    case True
    then have "suffix ''Z'' (last ds)" using ds by (simp add: list_all_iff endsWith_def)
    then have "suffix ''Z'' ?v" using joinWith_last_suffix [OF ds, of "'',''"]
      by (rule suffix_order.trans)
    then show ?thesis by (simp add: endsWith_def)
  next
    case False
    then show ?thesis using assms(5) by simp
  qed
  have one: "transformDateTimeLine env line opts = line"
  proof (cases "list_all isValueChar ?v")
    case True
    then have "matchRest ((case params of None \<Rightarrow> [] | Some s \<Rightarrow> s) @ '':'' @ ?v) = Some (params, ?v)"
      using matchRest_value [OF assms(2) ne] by simp
    then have "matchDateTimeLine line = Some (name, params, ?v)"
      unfolding assms(4) by (rule matchDateTimeLine_shape [OF nm])
    then show ?thesis using comma br by (rule transformDateTimeLine_comma)
  next
    case False
    then have "matchRest ((case params of None \<Rightarrow> [] | Some s \<Rightarrow> s) @ '':'' @ ?v) = None"
      using matchRest_value [OF assms(2) ne] by simp
    then have "matchDateTimeLine line = None"
      unfolding assms(4) by (rule matchDateTimeLine_rest_None [OF nm])
    then show ?thesis by (simp add: transformDateTimeLine_def)
  qed
  moreover have "transformLines env opts inside ls ! i = line"
    using transformLines_nth_cases [OF assms(6), of env opts inside] one assms(7) by auto
  ultimately show ?thesis by simp
qed

theorem multi_valued_exdate_unchanged_by_rewriting_pass_witness:
  "transformLines
     \<lparr> zoneOffset = (\<lambda>z. if z = ''Europe/Zurich'' then Some (\<lambda>ts. 3600) else None), nowTs = 0 \<rparr>
     \<lparr> targetTz = ''Europe/Zurich'', overrideExistingTz = True \<rparr> False
     [''BEGIN:VEVENT'', ''DTSTART:20240101T120000Z'',
      ''EXDATE:20240108T120000Z,20240115T120000Z'',
      ''EXDATE;TZID=Europe/Berlin:20240122T130000,20240129T130000'', ''END:VEVENT''] ! 1
     = ''DTSTART;TZID=Europe/Zurich:20240101T130000''
   \<and> transformLines
     \<lparr> zoneOffset = (\<lambda>z. if z = ''Europe/Zurich'' then Some (\<lambda>ts. 3600) else None), nowTs = 0 \<rparr>
     \<lparr> targetTz = ''Europe/Zurich'', overrideExistingTz = True \<rparr> False
     [''BEGIN:VEVENT'', ''DTSTART:20240101T120000Z'',
      ''EXDATE:20240108T120000Z,20240115T120000Z'',
      ''EXDATE;TZID=Europe/Berlin:20240122T130000,20240129T130000'', ''END:VEVENT''] ! 2
     = ''EXDATE:20240108T120000Z,20240115T120000Z''
   \<and> transformLines
     \<lparr> zoneOffset = (\<lambda>z. if z = ''Europe/Zurich'' then Some (\<lambda>ts. 3600) else None), nowTs = 0 \<rparr>
     \<lparr> targetTz = ''Europe/Zurich'', overrideExistingTz = True \<rparr> False
     [''BEGIN:VEVENT'', ''DTSTART:20240101T120000Z'',
      ''EXDATE:20240108T120000Z,20240115T120000Z'',
      ''EXDATE;TZID=Europe/Berlin:20240122T130000,20240129T130000'', ''END:VEVENT''] ! 3
     = ''EXDATE;TZID=Europe/Berlin:20240122T130000,20240129T130000''
   \<and> transformDateTimeLine
       \<lparr> zoneOffset = (\<lambda>z. if z = ''Europe/Zurich'' then Some (\<lambda>ts. 3600) else None), nowTs = 0 \<rparr>
       ''EXDATE:20240108T120000Z''
       \<lparr> targetTz = ''Europe/Zurich'', overrideExistingTz = True \<rparr>
     = ''EXDATE;TZID=Europe/Zurich:20240108T130000''"
proof -
  let ?env = "\<lparr> zoneOffset = (\<lambda>z. if z = ''Europe/Zurich'' then Some (\<lambda>ts. 3600) else None), nowTs = 0 \<rparr>"
  let ?opts = "\<lparr> targetTz = ''Europe/Zurich'', overrideExistingTz = True \<rparr>"
  let ?ls = "[''BEGIN:VEVENT'', ''DTSTART:20240101T120000Z'',
      ''EXDATE:20240108T120000Z,20240115T120000Z'',
      ''EXDATE;TZID=Europe/Berlin:20240122T130000,20240129T130000'', ''END:VEVENT'']"
  have n: "ciUpper ''EXDATE'' = ''EXDATE''" by code_simp
  have a2: "case None :: string option of None \<Rightarrow> True
         | Some s \<Rightarrow> \<exists>p. s = CHR '';'' # p \<and> p \<noteq> [] \<and> CHR '':'' \<notin> set p" by simp
  have a3: "2 \<le> length [''20240108T120000Z'', ''20240115T120000Z'']" by simp
  have a4: "''EXDATE:20240108T120000Z,20240115T120000Z''
     = ''EXDATE'' @ (case None :: string option of None \<Rightarrow> [] | Some s \<Rightarrow> s) @ '':''
         @ joinWith '','' [''20240108T120000Z'', ''20240115T120000Z'']" by simp
  have a5: "list_all (\<lambda>d. endsWith d ''Z'') [''20240108T120000Z'', ''20240115T120000Z'']
         \<or> (extractExistingTzid None \<noteq> None \<and> overrideExistingTz ?opts)"
    by (simp add: endsWith_def suffix_def)
  have a6: "2 < length ?ls" by simp
  have a7: "?ls ! 2 = ''EXDATE:20240108T120000Z,20240115T120000Z''" by simp
  have b2: "case Some '';TZID=Europe/Berlin'' of None \<Rightarrow> True
         | Some s \<Rightarrow> \<exists>p. s = CHR '';'' # p \<and> p \<noteq> [] \<and> CHR '':'' \<notin> set p" by simp
  have b3: "2 \<le> length [''20240122T130000'', ''20240129T130000'']" by simp
  have b4: "''EXDATE;TZID=Europe/Berlin:20240122T130000,20240129T130000''
     = ''EXDATE'' @ (case Some '';TZID=Europe/Berlin'' of None \<Rightarrow> [] | Some s \<Rightarrow> s) @ '':''
         @ joinWith '','' [''20240122T130000'', ''20240129T130000'']" by simp
  have b5': "extractExistingTzid (Some '';TZID=Europe/Berlin'') \<noteq> None" by code_simp
  have b5: "list_all (\<lambda>d. endsWith d ''Z'') [''20240122T130000'', ''20240129T130000'']
         \<or> (extractExistingTzid (Some '';TZID=Europe/Berlin'') \<noteq> None \<and> overrideExistingTz ?opts)"
    using b5' by simp
  have b6: "3 < length ?ls" by simp
  have b7: "?ls ! 3 = ''EXDATE;TZID=Europe/Berlin:20240122T130000,20240129T130000''" by simp
  have i1: "transformLines ?env ?opts False ?ls ! 1 = ''DTSTART;TZID=Europe/Zurich:20240101T130000''"
    by code_simp
  have i2: "transformLines ?env ?opts False ?ls ! 2 = ''EXDATE:20240108T120000Z,20240115T120000Z''"
    using multi_valued_exdate_unchanged_by_rewriting_pass [OF n a2 a3 a4 a5 a6 a7, of ?env False] by blast
  have i3: "transformLines ?env ?opts False ?ls ! 3
            = ''EXDATE;TZID=Europe/Berlin:20240122T130000,20240129T130000''"
    using multi_valued_exdate_unchanged_by_rewriting_pass [OF n b2 b3 b4 b5 b6 b7, of ?env False] by blast
  have s: "transformDateTimeLine ?env ''EXDATE:20240108T120000Z'' ?opts
     = ''EXDATE;TZID=Europe/Zurich:20240108T130000''" by code_simp
  show ?thesis using i1 i2 i3 s by blast
qed

section \<open>All-day and floating lines that the rewriter handles as documented\<close>

lemma isAllDay_shape:
  assumes "ciUpper name \<in> set dtProps" and "allDayAfter rest"
  shows "isAllDay (name @ rest)"
proof -
  have len: "length name = length (ciUpper name)" by simp
  from assms(1) consider "ciUpper name = ''DTSTART''" | "ciUpper name = ''DTEND''"
    | "ciUpper name = ''RECURRENCE-ID''" | "ciUpper name = ''EXDATE''"
    by (auto simp: dtProps_def)
  then show ?thesis
  proof cases
    case 1
    then have "length name = 7" using len by simp
    with 1 assms(2) show ?thesis by (simp add: isAllDay_def dtProps_def ciPrefix_def)
  next
    case 2
    then have "length name = 5" using len by simp
    with 2 assms(2) show ?thesis by (simp add: isAllDay_def dtProps_def ciPrefix_def)
  next
    case 3
    then have "length name = 13" using len by simp
    with 3 assms(2) show ?thesis by (simp add: isAllDay_def dtProps_def ciPrefix_def)
  next
    case 4
    then have "length name = 6" using len by simp
    with 4 assms(2) show ?thesis by (simp add: isAllDay_def dtProps_def ciPrefix_def)
  qed
qed

lemma allDayAfter_last_param:
  assumes "CHR '':'' \<notin> set p" and "ciUpper vd = ''VALUE=DATE''"
  shows "allDayAfter (CHR '';'' # p @ vd @ CHR '':'' # rest)"
proof -
  have nc: "CHR '':'' \<notin> set vd"
  proof
    assume "CHR '':'' \<in> set vd"
    then have "upperChar (CHR '':'') \<in> set (ciUpper vd)"
      unfolding ciUpper_def by (simp add: image_iff) blast
    then show False unfolding assms(2) by (simp add: upperChar_def)
  qed
  have "list_all notColon (p @ vd)" using assms(1) nc by (auto simp: list_all_iff notColon_def)
  then have tw: "takeWhile notColon ((p @ vd) @ CHR '':'' # rest) = p @ vd"
    by (rule takeWhile_stop) (simp add: notColon_def)
  show ?thesis
    using tw assms(2) by (simp add: allDayAfter_def Let_def suffix_def)
qed

text \<open>
  What does hold for all-day lines: when \<open>VALUE=DATE\<close> (in any case) is the last
  parameter, immediately before the colon, the line is recognised by \<open>isAllDay\<close>,
  \<open>transformDateTimeLine\<close> returns it unchanged and the rewriting pass emits it
  unchanged.
\<close>

theorem all_day_last_parameter_unchanged:
  assumes "ciUpper name \<in> set dtProps"
    and "CHR '':'' \<notin> set p" and "ciUpper vd = ''VALUE=DATE''"
    and "line = name @ '';'' @ p @ vd @ '':'' @ rest"
    and "i < length ls" and "ls ! i = line"
  shows "isAllDay line \<and> transformDateTimeLine env line opts = line
       \<and> transformLines env opts inside ls ! i = line"
proof -
  have a: "isAllDay line"
    unfolding assms(4) using isAllDay_shape [OF assms(1) allDayAfter_last_param [OF assms(2,3)]]
    by simp
  then have t: "transformDateTimeLine env line opts = line"
    by (simp add: transformDateTimeLine_def split: option.splits)
  then have "transformLines env opts inside ls ! i = line"
    using transformLines_nth_cases [OF assms(5), of env opts inside] assms(6) by auto
  then show ?thesis using a t by simp
qed

theorem all_day_last_parameter_witness:
  "isAllDay ''DTSTART;VALUE=DATE:20240101''
   \<and> transformLines \<lparr> zoneOffset = (\<lambda>z. None), nowTs = 0 \<rparr>
       \<lparr> targetTz = ''Europe/Zurich'', overrideExistingTz = True \<rparr> False
       [''BEGIN:VEVENT'', ''DTSTART;VALUE=DATE:20240101'', ''END:VEVENT''] ! 1
     = ''DTSTART;VALUE=DATE:20240101''"
proof -
  have 1: "ciUpper ''DTSTART'' \<in> set dtProps" by code_simp
  have 2: "CHR '':'' \<notin> set ''''" by simp
  have 3: "ciUpper ''VALUE=DATE'' = ''VALUE=DATE''" by code_simp
  have 4: "''DTSTART;VALUE=DATE:20240101'' = ''DTSTART'' @ '';'' @ '''' @ ''VALUE=DATE'' @ '':'' @ ''20240101''"
    by simp
  have 5: "1 < length [''BEGIN:VEVENT'', ''DTSTART;VALUE=DATE:20240101'', ''END:VEVENT'']" by simp
  have 6: "[''BEGIN:VEVENT'', ''DTSTART;VALUE=DATE:20240101'', ''END:VEVENT''] ! 1
           = ''DTSTART;VALUE=DATE:20240101''" by simp
  show ?thesis
    using all_day_last_parameter_unchanged [OF 1 2 3 4 5 6,
        of "\<lparr> zoneOffset = (\<lambda>z. None), nowTs = 0 \<rparr>"
           "\<lparr> targetTz = ''Europe/Zurich'', overrideExistingTz = True \<rparr>" False]
    by blast
qed

lemma remove1_none: "x \<notin> set xs \<Longrightarrow> remove1 x xs = xs"
  by (induction xs) auto

text \<open>
  What does hold for floating lines: when the value contains no \<open>Z\<close> at all and no
  existing \<open>TZID\<close> is found in the parameters, the line returned carries
  \<open>TZID=<target zone>\<close> first and the value of the input, byte for byte.
\<close>

theorem floating_value_without_Z_kept:
  assumes "ciUpper name \<in> set dtProps"
    and "case params of None \<Rightarrow> True
         | Some s \<Rightarrow> \<exists>p. s = CHR '';'' # p \<and> p \<noteq> [] \<and> CHR '':'' \<notin> set p"
    and "line = name @ (case params of None \<Rightarrow> [] | Some s \<Rightarrow> s) @ '':'' @ v"
    and "v \<noteq> []" and "list_all isValueChar v" and "CHR ''Z'' \<notin> set v"
    and "extractExistingTzid params = None" and "\<not> isAllDay line"
  shows "transformDateTimeLine env line opts
         = name @ '';TZID='' @ targetTz opts
             @ concat (map (\<lambda>kv. '';'' @ kv)
                 (filter (\<lambda>kv. \<not> isTzidParam kv) (paramParts params)))
             @ '':'' @ v"
proof -
  have "matchRest ((case params of None \<Rightarrow> [] | Some s \<Rightarrow> s) @ '':'' @ v) = Some (params, v)"
    using matchRest_value [OF assms(2,4)] assms(5) by simp
  then have m: "matchDateTimeLine line = Some (name, params, v)"
    unfolding assms(3) by (rule matchDateTimeLine_shape [OF assms(1)])
  have z: "\<not> endsWith v ''Z''" using assms(6) by (auto simp: endsWith_def suffix_def)
  show ?thesis
    using assms(7,8) z
    by (simp add: transformDateTimeLine_def m Let_def remove1_none [OF assms(6)] buildParams_text)
qed

theorem floating_value_without_Z_witness:
  "transformDateTimeLine \<lparr> zoneOffset = (\<lambda>z. None), nowTs = 0 \<rparr>
     ''DTSTART:20240101T120000''
     \<lparr> targetTz = ''Europe/Zurich'', overrideExistingTz = False \<rparr>
   = ''DTSTART;TZID=Europe/Zurich:20240101T120000''"
proof -
  have 1: "ciUpper ''DTSTART'' \<in> set dtProps" by code_simp
  have 2: "case None :: string option of None \<Rightarrow> True
         | Some s \<Rightarrow> \<exists>p. s = CHR '';'' # p \<and> p \<noteq> [] \<and> CHR '':'' \<notin> set p" by simp
  have 3: "''DTSTART:20240101T120000''
     = ''DTSTART'' @ (case None :: string option of None \<Rightarrow> [] | Some s \<Rightarrow> s) @ '':'' @ ''20240101T120000''"
    by simp
  have 4: "''20240101T120000'' \<noteq> []" by simp
  have 5: "list_all isValueChar ''20240101T120000''" by code_simp
  have 6: "CHR ''Z'' \<notin> set ''20240101T120000''" by simp
  have 7: "extractExistingTzid None = None" by code_simp
  have 8: "\<not> isAllDay ''DTSTART:20240101T120000''" by code_simp
  show ?thesis
    using floating_value_without_Z_kept [OF 1 2 3 4 5 6 7 8,
        of "\<lparr> zoneOffset = (\<lambda>z. None), nowTs = 0 \<rparr>"
           "\<lparr> targetTz = ''Europe/Zurich'', overrideExistingTz = False \<rparr>"]
    by (simp add: paramParts_def)
qed

text \<open>
  With a target zone that the platform does not know (the shape test of \<open>isLikelyIana\<close>
  accepts such names), the UTC branch still rewrites the line: the value it emits is the
  text that an invalid date-time prints.
\<close>

theorem utc_line_with_unknown_target_zone:
  assumes "ciUpper name \<in> set dtProps"
    and "case params of None \<Rightarrow> True
         | Some s \<Rightarrow> \<exists>p. s = CHR '';'' # p \<and> p \<noteq> [] \<and> CHR '':'' \<notin> set p"
    and "line = name @ (case params of None \<Rightarrow> [] | Some s \<Rightarrow> s) @ '':'' @ digits @ ''Z''"
    and "\<not> isAllDay line"
    and "matchFormat hs digits = Some d" and "validObj d" and "digits ! 8 = CHR ''T''"
    and "normalizeZone env (targetTz opts) = None"
  shows "transformDateTimeLine env line opts
         = name @ '';TZID='' @ targetTz opts
             @ concat (map (\<lambda>kv. '';'' @ kv)
                 (filter (\<lambda>kv. \<not> isTzidParam kv) (paramParts params)))
             @ '':Invalid DateTime''"
  using transformDateTimeLine_utc [OF assms(1-7), of env opts] assms(8)
  by (simp add: buildParams_text setZoneToFormat_def)

theorem utc_line_with_unknown_target_zone_witness:
  "isLikelyIana ''Mars/Olympus''
   \<and> transformDateTimeLine \<lparr> zoneOffset = (\<lambda>z. None), nowTs = 0 \<rparr>
       ''DTSTART:20240101T120000Z''
       \<lparr> targetTz = ''Mars/Olympus'', overrideExistingTz = False \<rparr>
     = ''DTSTART;TZID=Mars/Olympus:Invalid DateTime''"
proof -
  let ?d = "\<lparr> year = 2024, month = 1, day = 1, hour = 12, minute = 0, second = 0 \<rparr>"
  let ?env = "\<lparr> zoneOffset = (\<lambda>z. None), nowTs = 0 \<rparr>"
  let ?opts = "\<lparr> targetTz = ''Mars/Olympus'', overrideExistingTz = False \<rparr>"
  have h0: "isLikelyIana ''Mars/Olympus''" by code_simp
  have h1: "ciUpper ''DTSTART'' \<in> set dtProps" by code_simp
  have h2: "case None :: string option of None \<Rightarrow> True
         | Some s \<Rightarrow> \<exists>p. s = CHR '';'' # p \<and> p \<noteq> [] \<and> CHR '':'' \<notin> set p" by simp
  have h3: "''DTSTART:20240101T120000Z''
     = ''DTSTART'' @ (case None :: string option of None \<Rightarrow> [] | Some s \<Rightarrow> s) @ '':'' @ ''20240101T120000'' @ ''Z''"
    by simp
  have h4: "\<not> isAllDay ''DTSTART:20240101T120000Z''" by code_simp
  have h5: "matchFormat True ''20240101T120000'' = Some ?d" by code_simp
  have h6: "validObj ?d" by code_simp
  have h7: "''20240101T120000'' ! 8 = CHR ''T''" by code_simp
  have h8: "normalizeZone ?env (targetTz ?opts) = None"
    by (simp add: normalizeZone_def upperChar_def)
  show ?thesis
    using utc_line_with_unknown_target_zone [OF h1 h2 h3 h4 h5 h6 h7 h8] h0
    by (simp add: paramParts_def)
qed

section \<open>The integration step on a list of lines\<close>

lemma findIndex_None_iff: "findIndex P xs = None \<longleftrightarrow> \<not> list_ex P xs"
  by (induction xs) (auto split: option.splits)

lemma findIndex_first:
  "\<not> list_ex P pre \<Longrightarrow> P x \<Longrightarrow> findIndex P (pre @ x # post) = Some (length pre)"
  by (induction pre) auto

lemma findIndexAfter_first:
  assumes "\<not> list_ex P mid" and "P e"
  shows "findIndexAfter P (length pre) (pre @ b # mid @ e # post)
         = Some (Suc (length pre) + length mid)"
  using findIndex_first [OF assms, of post]
  by (simp add: findIndexAfter_def)

lemma findIndexAfter_None:
  assumes "\<not> list_ex P rest"
  shows "findIndexAfter P (length pre) (pre @ b # rest) = None"
proof -
  have "findIndex P rest = None" using assms by (simp add: findIndex_None_iff)
  then show ?thesis by (simp add: findIndexAfter_def)
qed

lemma includes_str_self: "includes_str s s"
  by (cases s) auto

lemma includes_str_append: "includes_str (a @ tz) tz"
  by (induction a) (auto simp: includes_str_self)

lemma block_declares: "list_ex (declaresTz tz) (vtimezoneBlock tz)"
  using includes_str_append [of "''TZID:''" tz]
  by (simp add: vtimezoneBlock_def declaresTz_def startsWith_def upperString_def upperChar_def)

lemma integrate_declared: "list_ex (declaresTz tz) ls \<Longrightarrow> integrateVtimezone tz ls = ls"
  by (simp add: integrateVtimezone_def)

lemma list_ex_splice:
  "list_ex P items \<Longrightarrow> list_ex P (splice xs start count items)"
  by (auto simp: splice_def list_ex_iff)

lemma integrate_result_cases:
  "integrateVtimezone tz ls = ls \<or> list_ex (declaresTz tz) (integrateVtimezone tz ls)"
  by (auto simp: integrateVtimezone_def block_declares list_ex_splice list_ex_append
      split: option.splits)

lemma integrate_idem: "integrateVtimezone tz (integrateVtimezone tz ls) = integrateVtimezone tz ls"
  using integrate_result_cases [of tz ls] integrate_declared by auto

text \<open>
  The integration step on a list of lines. For every list of lines \<open>ls\<close>: when the
  target zone passes \<open>isLikelyIana\<close> and no line declares it (a line that starts with
  \<open>TZID:\<close> and contains the zone), then (1) if \<open>ls\<close> has a first line \<open>b\<close> that
  starts with \<open>BEGIN:VTIMEZONE\<close> and a first later line \<open>e\<close> that starts with
  \<open>END:VTIMEZONE\<close>, the lines from \<open>b\<close> through \<open>e\<close> are replaced by the
  synthesized block; (2) if no line starts with \<open>BEGIN:VTIMEZONE\<close>, the block is
  inserted immediately before the first line \<open>ev\<close> that starts with \<open>BEGIN:VEVENT\<close>;
  (3) with no such line either, the block is appended at the end. (4) When a line declares
  the target zone, and (5) when the shape check fails, the lines are returned as they are.
  (6) The step applied to its own result changes nothing. The event normalizer runs on
  the result of this step.
\<close>

theorem integration_step_cases:
  "(isLikelyIana tz \<and> \<not> list_ex (declaresTz tz) ls
      \<and> ls = pre @ b # mid @ e # post
      \<and> \<not> list_ex isVtzBegin pre \<and> isVtzBegin b \<and> \<not> list_ex isVtzEnd mid \<and> isVtzEnd e
     \<longrightarrow> integrateVtimezone tz ls = pre @ vtimezoneBlock tz @ post)
   \<and> (isLikelyIana tz \<and> \<not> list_ex (declaresTz tz) ls \<and> \<not> list_ex isVtzBegin ls
      \<and> ls = pre @ ev # post \<and> \<not> list_ex isVeventBegin pre \<and> isVeventBegin ev
     \<longrightarrow> integrateVtimezone tz ls = pre @ vtimezoneBlock tz @ ev # post)
   \<and> (isLikelyIana tz \<and> \<not> list_ex (declaresTz tz) ls \<and> \<not> list_ex isVtzBegin ls
      \<and> \<not> list_ex isVeventBegin ls
     \<longrightarrow> integrateVtimezone tz ls = ls @ vtimezoneBlock tz)
   \<and> (list_ex (declaresTz tz) ls \<longrightarrow> integrateVtimezone tz ls = ls)
   \<and> (\<not> isLikelyIana tz \<longrightarrow> integrateVtimezone tz ls = ls)
   \<and> integrateVtimezone tz (integrateVtimezone tz ls) = integrateVtimezone tz ls"
proof -
  have a: "integrateVtimezone tz ls = pre @ vtimezoneBlock tz @ post"
    if "isLikelyIana tz" "\<not> list_ex (declaresTz tz) ls" "ls = pre @ b # mid @ e # post"
      "\<not> list_ex isVtzBegin pre" "isVtzBegin b" "\<not> list_ex isVtzEnd mid" "isVtzEnd e"
  proof -
    have s: "findIndex isVtzBegin ls = Some (length pre)"
      unfolding that(3) using that(4,5) by (rule findIndex_first)
    have e: "findIndexAfter isVtzEnd (length pre) ls = Some (Suc (length pre) + length mid)"
      unfolding that(3) using that(6,7) by (rule findIndexAfter_first)
    have "splice ls (length pre) (Suc (length pre) + length mid - length pre + 1) (vtimezoneBlock tz)
          = pre @ vtimezoneBlock tz @ post"
      by (simp add: splice_def that(3))
    then show ?thesis using that(1,2) by (simp add: integrateVtimezone_def s e)
  qed
  have b: "integrateVtimezone tz ls = pre @ vtimezoneBlock tz @ ev # post"
    if "isLikelyIana tz" "\<not> list_ex (declaresTz tz) ls" "\<not> list_ex isVtzBegin ls"
      "ls = pre @ ev # post" "\<not> list_ex isVeventBegin pre" "isVeventBegin ev"
  proof -
    have s: "findIndex isVtzBegin ls = None" using that(3) by (simp add: findIndex_None_iff)
    have v: "findIndex isVeventBegin ls = Some (length pre)"
      unfolding that(4) using that(5,6) by (rule findIndex_first)
    have "splice ls (length pre) 0 (vtimezoneBlock tz) = pre @ vtimezoneBlock tz @ ev # post"
      by (simp add: splice_def that(4))
    then show ?thesis using that(1,2) by (simp add: integrateVtimezone_def s v)
  qed
  have c: "integrateVtimezone tz ls = ls @ vtimezoneBlock tz"
    if "isLikelyIana tz" "\<not> list_ex (declaresTz tz) ls" "\<not> list_ex isVtzBegin ls"
      "\<not> list_ex isVeventBegin ls"
  proof -
    have "findIndex isVtzBegin ls = None" "findIndex isVeventBegin ls = None"
      using that(3,4) by (simp_all add: findIndex_None_iff)
    then show ?thesis using that(1,2) by (simp add: integrateVtimezone_def)
  qed
  have d: "integrateVtimezone tz ls = ls" if "\<not> isLikelyIana tz"
    using that by (simp add: integrateVtimezone_def)
  show ?thesis
    using a b c d integrate_declared [of tz ls] integrate_idem [of tz ls] by blast
qed


theorem integration_step_cases_witness:
  "integrateVtimezone ''Europe/Zurich''
     [''BEGIN:VCALENDAR'', ''BEGIN:VTIMEZONE'', ''TZID:W. Europe Standard Time'',
      ''END:VTIMEZONE'', ''BEGIN:VEVENT'', ''END:VEVENT'', ''END:VCALENDAR'']
   = [''BEGIN:VCALENDAR''] @ vtimezoneBlock ''Europe/Zurich''
       @ [''BEGIN:VEVENT'', ''END:VEVENT'', ''END:VCALENDAR'']
   \<and> integrateVtimezone ''Europe/Zurich''
       [''BEGIN:VCALENDAR'', ''BEGIN:VEVENT'', ''END:VEVENT'', ''END:VCALENDAR'']
     = [''BEGIN:VCALENDAR''] @ vtimezoneBlock ''Europe/Zurich''
         @ [''BEGIN:VEVENT'', ''END:VEVENT'', ''END:VCALENDAR'']
   \<and> integrateVtimezone ''Europe/Zurich'' [''BEGIN:VCALENDAR'', ''END:VCALENDAR'']
     = [''BEGIN:VCALENDAR'', ''END:VCALENDAR''] @ vtimezoneBlock ''Europe/Zurich''
   \<and> integrateVtimezone ''Europe/Zurich''
       [''BEGIN:VCALENDAR'', ''BEGIN:VTIMEZONE'', ''TZID:Europe/Zurich'', ''END:VTIMEZONE'',
        ''END:VCALENDAR'']
     = [''BEGIN:VCALENDAR'', ''BEGIN:VTIMEZONE'', ''TZID:Europe/Zurich'', ''END:VTIMEZONE'',
        ''END:VCALENDAR'']
   \<and> integrateVtimezone ''Zurich''
       [''BEGIN:VCALENDAR'', ''BEGIN:VTIMEZONE'', ''TZID:W. Europe Standard Time'',
        ''END:VTIMEZONE'', ''END:VCALENDAR'']
     = [''BEGIN:VCALENDAR'', ''BEGIN:VTIMEZONE'', ''TZID:W. Europe Standard Time'',
        ''END:VTIMEZONE'', ''END:VCALENDAR'']"
proof -
  have iana: "isLikelyIana ''Europe/Zurich''" by code_simp
  have a: "integrateVtimezone ''Europe/Zurich''
     [''BEGIN:VCALENDAR'', ''BEGIN:VTIMEZONE'', ''TZID:W. Europe Standard Time'',
      ''END:VTIMEZONE'', ''BEGIN:VEVENT'', ''END:VEVENT'', ''END:VCALENDAR'']
   = [''BEGIN:VCALENDAR''] @ vtimezoneBlock ''Europe/Zurich''
       @ [''BEGIN:VEVENT'', ''END:VEVENT'', ''END:VCALENDAR'']"
  proof -
    let ?ls = "[''BEGIN:VCALENDAR'', ''BEGIN:VTIMEZONE'', ''TZID:W. Europe Standard Time'',
      ''END:VTIMEZONE'', ''BEGIN:VEVENT'', ''END:VEVENT'', ''END:VCALENDAR'']"
    have 1: "\<not> list_ex (declaresTz ''Europe/Zurich'') ?ls" by code_simp
    have 2: "?ls = [''BEGIN:VCALENDAR''] @ ''BEGIN:VTIMEZONE'' # [''TZID:W. Europe Standard Time'']
                @ ''END:VTIMEZONE'' # [''BEGIN:VEVENT'', ''END:VEVENT'', ''END:VCALENDAR'']" by simp
    have 3: "\<not> list_ex isVtzBegin [''BEGIN:VCALENDAR'']" by code_simp
    have 4: "isVtzBegin ''BEGIN:VTIMEZONE''" by code_simp
    have 5: "\<not> list_ex isVtzEnd [''TZID:W. Europe Standard Time'']" by code_simp
    have 6: "isVtzEnd ''END:VTIMEZONE''" by code_simp
    show ?thesis
      using integration_step_cases [where tz = "''Europe/Zurich''" and ls = ?ls
          and pre = "[''BEGIN:VCALENDAR'']" and b = "''BEGIN:VTIMEZONE''"
          and mid = "[''TZID:W. Europe Standard Time'']" and e = "''END:VTIMEZONE''"
          and post = "[''BEGIN:VEVENT'', ''END:VEVENT'', ''END:VCALENDAR'']"]
        iana 1 2 3 4 5 6 by blast
  qed
  have b: "integrateVtimezone ''Europe/Zurich''
       [''BEGIN:VCALENDAR'', ''BEGIN:VEVENT'', ''END:VEVENT'', ''END:VCALENDAR'']
     = [''BEGIN:VCALENDAR''] @ vtimezoneBlock ''Europe/Zurich''
         @ [''BEGIN:VEVENT'', ''END:VEVENT'', ''END:VCALENDAR'']"
  proof -
    let ?ls = "[''BEGIN:VCALENDAR'', ''BEGIN:VEVENT'', ''END:VEVENT'', ''END:VCALENDAR'']"
    have 1: "\<not> list_ex (declaresTz ''Europe/Zurich'') ?ls" by code_simp
    have 2: "\<not> list_ex isVtzBegin ?ls" by code_simp
    have 3: "?ls = [''BEGIN:VCALENDAR''] @ ''BEGIN:VEVENT'' # [''END:VEVENT'', ''END:VCALENDAR'']"
      by simp
    have 4: "\<not> list_ex isVeventBegin [''BEGIN:VCALENDAR'']" by code_simp
    have 5: "isVeventBegin ''BEGIN:VEVENT''" by code_simp
    have "integrateVtimezone ''Europe/Zurich'' ?ls
          = [''BEGIN:VCALENDAR''] @ vtimezoneBlock ''Europe/Zurich''
              @ ''BEGIN:VEVENT'' # [''END:VEVENT'', ''END:VCALENDAR'']"
      using integration_step_cases [where tz = "''Europe/Zurich''" and ls = ?ls
          and pre = "[''BEGIN:VCALENDAR'']" and ev = "''BEGIN:VEVENT''"
          and post = "[''END:VEVENT'', ''END:VCALENDAR'']"]
        iana 1 2 3 4 5 by blast
    then show ?thesis by simp
  qed
  have c: "integrateVtimezone ''Europe/Zurich'' [''BEGIN:VCALENDAR'', ''END:VCALENDAR'']
     = [''BEGIN:VCALENDAR'', ''END:VCALENDAR''] @ vtimezoneBlock ''Europe/Zurich''"
  proof -
    let ?ls = "[''BEGIN:VCALENDAR'', ''END:VCALENDAR'']"
    have 1: "\<not> list_ex (declaresTz ''Europe/Zurich'') ?ls" by code_simp
    have 2: "\<not> list_ex isVtzBegin ?ls" by code_simp
    have 3: "\<not> list_ex isVeventBegin ?ls" by code_simp
    show ?thesis
      using integration_step_cases [where tz = "''Europe/Zurich''" and ls = ?ls]
        iana 1 2 3 by blast
  qed
  have d: "integrateVtimezone ''Europe/Zurich''
       [''BEGIN:VCALENDAR'', ''BEGIN:VTIMEZONE'', ''TZID:Europe/Zurich'', ''END:VTIMEZONE'',
        ''END:VCALENDAR'']
     = [''BEGIN:VCALENDAR'', ''BEGIN:VTIMEZONE'', ''TZID:Europe/Zurich'', ''END:VTIMEZONE'',
        ''END:VCALENDAR'']"
  proof -
    let ?ls = "[''BEGIN:VCALENDAR'', ''BEGIN:VTIMEZONE'', ''TZID:Europe/Zurich'', ''END:VTIMEZONE'',
        ''END:VCALENDAR'']"
    have 1: "list_ex (declaresTz ''Europe/Zurich'') ?ls" by code_simp
    show ?thesis
      using integration_step_cases [where tz = "''Europe/Zurich''" and ls = ?ls] 1
      by blast
  qed
  have e: "integrateVtimezone ''Zurich''
       [''BEGIN:VCALENDAR'', ''BEGIN:VTIMEZONE'', ''TZID:W. Europe Standard Time'',
        ''END:VTIMEZONE'', ''END:VCALENDAR'']
     = [''BEGIN:VCALENDAR'', ''BEGIN:VTIMEZONE'', ''TZID:W. Europe Standard Time'',
        ''END:VTIMEZONE'', ''END:VCALENDAR'']"
  proof -
    have 1: "\<not> isLikelyIana ''Zurich''" by code_simp
    show ?thesis
      using integration_step_cases [where tz = "''Zurich''"
          and ls = "[''BEGIN:VCALENDAR'', ''BEGIN:VTIMEZONE'', ''TZID:W. Europe Standard Time'',
        ''END:VTIMEZONE'', ''END:VCALENDAR'']"] 1
      by blast
  qed
  show ?thesis using a b c d e by blast
qed

end
